theory Spec2Isabelle
  imports Complex_Main "HOL-Library.Word" "HOL-Library.Signed_Division"
begin

unbundle bit_operations_syntax

section \<open>Machine types of TextureCache.h\<close>

text \<open>
  The header works on fixed-width integers. \<open>uint32\<close>, \<open>GLuint\<close> and \<open>sint32\<close> are
  32-bit words; a \<open>sint32\<close> is read in two's complement (\<open>sint\<close>) wherever the source
  compares or divides it as a signed value. \<open>size_t\<close> is taken as 64 bits wide.
  Addition and multiplication wrap around; what traps or aborts in C++ (a division by
  zero, the signed division of the least \<open>sint32\<close> by \<open>-1\<close>, a failed \<open>assert\<close>, a
  \<open>std::vector\<close> asked to grow past its maximal size, a non-finite floating-point
  value converted to an integer) is a value of type \<open>failure\<close>.
\<close>

type_synonym uint32 = "32 word"
type_synonym uint64 = "64 word"
type_synonym size_t = "64 word"
type_synonym GLuint = "32 word"
type_synonym sint32 = "32 word"

datatype failure =
  AssertionFailed | DivisionByZero | DivisionOverflow | LengthError | InvalidConversion

text \<open>
  Signed division of C++ truncates towards zero. It traps on a zero divisor, and on
  \<open>INT32_MIN / -1\<close>, whose quotient no \<open>sint32\<close> holds: \<open>sint32_div_traps\<close> says
  when, and \<open>sint32_div\<close> is the quotient of a division that does not trap.
\<close>

definition INT32_MIN :: sint32 where
  "INT32_MIN = - (2 ^ 31)"

definition sint32_div_traps :: "sint32 \<Rightarrow> sint32 \<Rightarrow> failure option" where
  "sint32_div_traps a b =
     (if b = 0 then Some DivisionByZero
      else if a = INT32_MIN \<and> b = - 1 then Some DivisionOverflow
      else None)"

definition sint32_div :: "sint32 \<Rightarrow> sint32 \<Rightarrow> sint32" where
  "sint32_div a b = word_of_int (sint a sdiv sint b)"

section \<open>GlyphId\<close>

record GlyphId =
  Image :: uint32
  Palette :: uint64

text \<open>
  \<open>GlyphId::Hash\<close>. \<open>k.Image * 7\<close> is a 32-bit product that is then widened to
  \<open>size_t\<close>; the two halves of the palette are multiplied and added in 64 bits.
\<close>

definition GlyphId_Hash :: "GlyphId \<Rightarrow> size_t" where
  "GlyphId_Hash k =
     (let hash = (ucast (Image k * 7) :: size_t);
          hash = hash + (Palette k AND 0xFFFFFFFF) * 13;
          hash = hash + (drop_bit 32 (Palette k)) * 23
      in hash)"

definition GlyphId_Equal :: "GlyphId \<Rightarrow> GlyphId \<Rightarrow> bool" where
  "GlyphId_Equal lhs rhs = (Image lhs = Image rhs \<and> Palette lhs = Palette rhs)"

section \<open>Constants\<close>

definition TEXTURE_CACHE_MAX_ATLAS_SIZE :: sint32 where
  "TEXTURE_CACHE_MAX_ATLAS_SIZE = 2048"

definition TEXTURE_CACHE_SMALLEST_SLOT :: sint32 where
  "TEXTURE_CACHE_SMALLEST_SLOT = 32"

section \<open>Vectors and CachedTextureInfo\<close>

text \<open>
  A \<open>GLfloat\<close> is a single-precision number: \<open>Finite x\<close> for the float whose value is
  the real number \<open>x\<close>, or \<open>NonFinite\<close> for the infinities and NaN that a division by
  zero produces. A float has a significand of 24 bits, and every operation rounds its
  exact result to the nearest float, to the one with an even significand in a tie
  (the default rounding, with float expressions evaluated in single precision, as SSE
  arithmetic does). The sign of a zero is not kept.
\<close>

datatype GLfloat = Finite real | NonFinite

text \<open>The number of bits of a positive integer.\<close>

function bit_length :: "int \<Rightarrow> nat" where
  "bit_length n = (if n \<le> 0 then 0 else Suc (bit_length (n div 2)))"
  by pat_completeness auto
termination
  by (relation "measure nat") auto

declare bit_length.simps [simp del]

text \<open>
  The quotient \<open>n / d\<close> of two positive integers, rounded to the nearest integer, to
  the even one in a tie.
\<close>

definition round_nearest_even :: "int \<Rightarrow> int \<Rightarrow> int" where
  "round_nearest_even n d =
     (let q = n div d; r = n mod d
      in if d < 2 * r \<or> (2 * r = d \<and> odd q) then q + 1 else q)"

text \<open>
  The conversion \<open>(float) v\<close> of a \<open>sint32\<close>. The float holds a whole number, which
  is the result here: \<open>v\<close> itself up to \<open>2 ^ 24\<close>, and beyond that \<open>v\<close> rounded to 24
  significant bits.
\<close>

definition float_of_sint32 :: "sint32 \<Rightarrow> int" where
  "float_of_sint32 v =
     (let n = sint v
      in if \<bar>n\<bar> \<le> 2 ^ 24 then n
         else
           let e = bit_length \<bar>n\<bar> - 24
           in sgn n * (round_nearest_even \<bar>n\<bar> (2 ^ e) * 2 ^ e))"

text \<open>\<open>n * 2 ^ e\<close> for an exponent that is not negative, and \<open>n\<close> for a negative one.\<close>

definition scale_up :: "int \<Rightarrow> int \<Rightarrow> int" where
  "scale_up n e = n * 2 ^ nat e"

text \<open>
  The single-precision quotient \<open>a / b\<close> of two floats that hold whole numbers, as
  the converted \<open>sint32\<close> values of \<open>NormalizeCoordinates\<close> do. The exponent \<open>e\<close> is
  the one for which \<open>\<bar>a\<bar> / (\<bar>b\<bar> * 2 ^ e)\<close> has 24 bits before the binary point; that
  scaled quotient is rounded, and the result is the rounded significand times
  \<open>2 ^ e\<close>. With operands of at most \<open>2 ^ 31\<close> in magnitude the quotient is zero or
  between \<open>2\<^sup>-\<^sup>3\<^sup>1\<close> and \<open>2\<^sup>3\<^sup>1\<close>, inside the range of the normal floats, so
  neither overflow nor gradual underflow arises.
\<close>

definition float_div :: "int \<Rightarrow> int \<Rightarrow> GLfloat" where
  "float_div a b =
     (if b = 0 then NonFinite
      else if a = 0 then Finite 0
      else
        let e0 = int (bit_length \<bar>a\<bar>) - int (bit_length \<bar>b\<bar>) - 24;
            e = (if 2 ^ 24 \<le> scale_up \<bar>a\<bar> (- e0) div scale_up \<bar>b\<bar> e0 then e0 + 1 else e0);
            q = sgn a * sgn b * round_nearest_even (scale_up \<bar>a\<bar> (- e)) (scale_up \<bar>b\<bar> e)
        in Finite (if 0 \<le> e then real_of_int (q * 2 ^ nat e)
                   else real_of_int q / 2 ^ nat (- e)))"

text \<open>
  Modelled from the spec: \<open>ivec4\<close> and \<open>vec4\<close> are declared in GLSLTypes.h, which is
  not part of the sources at hand. The spec describes the bounds of a slot as an
  integer pixel rectangle and as the same rectangle in normalized coordinates; the
  source accesses the four components as \<open>x\<close>, \<open>y\<close>, \<open>z\<close>, \<open>w\<close>.
\<close>

record ivec4 =
  ivec4_x :: sint32
  ivec4_y :: sint32
  ivec4_z :: sint32
  ivec4_w :: sint32

record vec4 =
  vec4_x :: GLfloat
  vec4_y :: GLfloat
  vec4_z :: GLfloat
  vec4_w :: GLfloat

text \<open>A value-initialised \<open>vec4\<close>: every component is zero.\<close>

definition vec4_value_init :: vec4 where
  "vec4_value_init = \<lparr>vec4_x = Finite 0, vec4_y = Finite 0, vec4_z = Finite 0, vec4_w = Finite 0\<rparr>"

record CachedTextureInfo =
  index :: GLuint
  slot :: GLuint
  bounds :: ivec4
  normalizedBounds :: vec4
  computedBounds :: vec4

section \<open>Atlas\<close>

text \<open>
  The private members \<open>_index\<close>, \<open>_imageSize\<close>, ... are the fields \<open>m_index\<close>,
  \<open>m_imageSize\<close>, ... (a name cannot start with an underscore here). \<open>_freeSlots\<close> is a
  \<open>std::vector\<close>: a list whose last element is \<open>back()\<close>.
\<close>

record Atlas =
  m_index :: GLuint
  m_imageSize :: sint32
  m_atlasWidth :: sint32
  m_atlasHeight :: sint32
  m_freeSlots :: "GLuint list"
  m_cols :: sint32
  m_rows :: sint32

text \<open>The constructor: the other members keep their default initialisers.\<close>

definition Atlas_ctor :: "GLuint \<Rightarrow> sint32 \<Rightarrow> Atlas" where
  "Atlas_ctor idx imageSize =
     \<lparr>m_index = idx, m_imageSize = imageSize, m_atlasWidth = 0, m_atlasHeight = 0,
      m_freeSlots = [], m_cols = 0, m_rows = 0\<rparr>"

text \<open>\<open>std::vector::resize\<close>: keeps a prefix, pads with value-initialised elements.\<close>

definition vector_resize :: "nat \<Rightarrow> GLuint list \<Rightarrow> GLuint list" where
  "vector_resize n v = take n v @ replicate (n - length v) 0"

text \<open>The loop of \<open>Initialise\<close>, from index \<open>i\<close> on.\<close>

function Initialise_loop :: "nat \<Rightarrow> GLuint list \<Rightarrow> GLuint list" where
  "Initialise_loop i v =
     (if i < length v then Initialise_loop (i + 1) (v[i := word_of_nat i]) else v)"
  by pat_completeness auto
termination
  by (relation "measure (\<lambda>(i, v). length v - i)") auto

declare Initialise_loop.simps [simp del]

text \<open>
  \<open>Initialise\<close>. Each of the two divisions by \<open>_imageSize\<close> can trap. The product
  \<open>_cols * _rows\<close> is a \<open>sint32\<close> converted to \<open>size_t\<close>: a negative one becomes a
  size beyond \<open>max_size()\<close>, and \<open>resize\<close> throws \<open>std::length_error\<close>.
\<close>

definition Initialise :: "Atlas \<Rightarrow> sint32 \<Rightarrow> sint32 \<Rightarrow> failure + Atlas" where
  "Initialise a atlasWidth atlasHeight =
     (case sint32_div_traps atlasWidth (m_imageSize a) of
        Some e \<Rightarrow> Inl e
      | None \<Rightarrow>
     (case sint32_div_traps atlasHeight (m_imageSize a) of
        Some e \<Rightarrow> Inl e
      | None \<Rightarrow>
        let cols = sint32_div atlasWidth (m_imageSize a);
            rows = sint32_div atlasHeight (m_imageSize a)
        in if cols * rows <s 0 then Inl LengthError
           else Inr (a\<lparr>m_atlasWidth := atlasWidth, m_atlasHeight := atlasHeight,
                       m_cols := cols, m_rows := rows,
                       m_freeSlots :=
                         Initialise_loop 0 (vector_resize (unat (cols * rows)) (m_freeSlots a))\<rparr>)))"

text \<open>
  \<open>GetSlotCoordinates\<close>. \<open>slot\<close> is unsigned, so \<open>slot / _cols\<close> and
  \<open>slot % _cols\<close> are the unsigned operations on the bits of \<open>_cols\<close>; they trap on
  zero.
\<close>

definition GetSlotCoordinates :: "Atlas \<Rightarrow> GLuint \<Rightarrow> sint32 \<Rightarrow> sint32 \<Rightarrow> failure + ivec4" where
  "GetSlotCoordinates a slt actualWidth actualHeight =
     (if m_cols a = 0 then Inl DivisionByZero
      else
        let row = slt div m_cols a;
            col = slt mod m_cols a
        in Inr \<lparr>ivec4_x = m_imageSize a * col,
                ivec4_y = m_imageSize a * row,
                ivec4_z = m_imageSize a * col + actualWidth,
                ivec4_w = m_imageSize a * row + actualHeight\<rparr>)"

definition NormalizeCoordinates :: "Atlas \<Rightarrow> ivec4 \<Rightarrow> vec4" where
  "NormalizeCoordinates a coords =
     \<lparr>vec4_x = float_div (float_of_sint32 (ivec4_x coords)) (float_of_sint32 (m_atlasWidth a)),
      vec4_y = float_div (float_of_sint32 (ivec4_y coords)) (float_of_sint32 (m_atlasHeight a)),
      vec4_z = float_div (float_of_sint32 (ivec4_z coords)) (float_of_sint32 (m_atlasWidth a)),
      vec4_w = float_div (float_of_sint32 (ivec4_w coords)) (float_of_sint32 (m_atlasHeight a))\<rparr>"

text \<open>
  \<open>Allocate\<close> returns the info and the atlas after \<open>pop_back\<close>. The braced list of
  the \<open>return\<close> statement has four initialisers for the five members of
  \<open>CachedTextureInfo\<close>: \<open>computedBounds\<close> is value-initialised.
\<close>

definition Allocate :: "Atlas \<Rightarrow> sint32 \<Rightarrow> sint32 \<Rightarrow> failure + (CachedTextureInfo \<times> Atlas)" where
  "Allocate a actualWidth actualHeight =
     (if \<not> length (m_freeSlots a) > 0 then Inl AssertionFailed
      else
        let slt = last (m_freeSlots a);
            a' = a\<lparr>m_freeSlots := butlast (m_freeSlots a)\<rparr>
        in case GetSlotCoordinates a' slt actualWidth actualHeight of
             Inl e \<Rightarrow> Inl e
           | Inr bnds \<Rightarrow>
               Inr (\<lparr>index = m_index a', slot = slt, bounds = bnds,
                     normalizedBounds = NormalizeCoordinates a' bnds,
                     computedBounds = vec4_value_init\<rparr>, a'))"

definition Free :: "Atlas \<Rightarrow> CachedTextureInfo \<Rightarrow> failure + Atlas" where
  "Free a info =
     (if \<not> m_index a = index info then Inl AssertionFailed
      else Inr (a\<lparr>m_freeSlots := m_freeSlots a @ [slot info]\<rparr>))"

definition GetFreeSlots :: "Atlas \<Rightarrow> sint32" where
  "GetFreeSlots a = word_of_nat (length (m_freeSlots a))"

section \<open>Size classes\<close>

text \<open>
  \<open>log2f\<close> and \<open>log2\<close> belong to the C library, not to this repository: they are
  parameters of the model, functions on the real numbers that the floats hold. The
  conversion of a \<open>sint32\<close> to \<open>double\<close>, with its 53 bits, is exact.
\<close>

record libm =
  log2f :: "real \<Rightarrow> real"
  log2 :: "real \<Rightarrow> real"

text \<open>
  What the theorems on size classes ask of \<open>log2f\<close>: it is exact on the powers of
  two up to \<open>TEXTURE_CACHE_MAX_ATLAS_SIZE\<close>, and within \<open>1 / 4096\<close> of the binary
  logarithm on the integers from 32 to 2048 (a single-precision \<open>log2f\<close> is within
  about \<open>10\<^sup>-\<^sup>6\<close> there). Of \<open>log2\<close>: it is exact on the powers of two that a
  \<open>sint32\<close> holds.
\<close>

definition log2f_faithful :: "libm \<Rightarrow> bool" where
  "log2f_faithful lm \<longleftrightarrow>
     (\<forall>k::nat. k \<le> 11 \<longrightarrow> log2f lm (2 ^ k) = real k)
     \<and> (\<forall>n::int. 32 \<le> n \<and> n \<le> 2048 \<longrightarrow>
           \<bar>log2f lm (real_of_int n) - log 2 (real_of_int n)\<bar> \<le> 1 / 4096)"

definition log2_exact_on_powers :: "libm \<Rightarrow> bool" where
  "log2_exact_on_powers lm \<longleftrightarrow> (\<forall>k::nat. k < 31 \<longrightarrow> log2 lm (2 ^ k) = real k)"

text \<open>The library whose logarithms are the mathematical ones.\<close>

definition exact_libm :: libm where
  "exact_libm = \<lparr>log2f = log 2, log2 = log 2\<rparr>"

text \<open>The conversion of a \<open>double\<close> to \<open>sint32\<close> truncates towards zero.\<close>

definition double_to_sint32 :: "real \<Rightarrow> sint32" where
  "double_to_sint32 x = word_of_int (if 0 \<le> x then \<lfloor>x\<rfloor> else \<lceil>x\<rceil>)"

text \<open>
  \<open>CalculateImageSizeOrder\<close>, a static member: it takes no atlas.
  \<open>std::max (a, b)\<close> is \<open>(a < b) ? b : a\<close> on signed values; \<open>ceil\<close> yields a whole
  number, which the conversion to \<open>sint32\<close> keeps.
\<close>

definition CalculateImageSizeOrder :: "libm \<Rightarrow> sint32 \<Rightarrow> sint32 \<Rightarrow> sint32" where
  "CalculateImageSizeOrder lm actualWidth actualHeight =
     (let actualSize = (if actualWidth <s actualHeight then actualHeight else actualWidth);
          actualSize = (if actualSize <s TEXTURE_CACHE_SMALLEST_SLOT
                        then TEXTURE_CACHE_SMALLEST_SLOT else actualSize)
      in double_to_sint32
           (real_of_int \<lceil>log2f lm (real_of_int (float_of_sint32 actualSize))\<rceil>))"

text \<open>
  \<open>IsImageSuitable\<close>. \<open>log2\<close> of zero or of a negative number is an infinity or a
  NaN, and converting that to \<open>sint32\<close> is undefined: the model fails there.
\<close>

definition IsImageSuitable :: "libm \<Rightarrow> Atlas \<Rightarrow> sint32 \<Rightarrow> sint32 \<Rightarrow> failure + bool" where
  "IsImageSuitable lm a actualWidth actualHeight =
     (let imageOrder = CalculateImageSizeOrder lm actualWidth actualHeight
      in if m_imageSize a \<le>s 0 then Inl InvalidConversion
         else
           let atlasOrder = double_to_sint32 (log2 lm (real_of_int (sint (m_imageSize a))))
           in Inr (imageOrder = atlasOrder))"

section \<open>Sequences of calls on one atlas\<close>

text \<open>
  A client of an atlas, for the statements about sequences of \<open>Allocate\<close> and \<open>Free\<close>
  calls. Next to the atlas it records the infos that are live (returned by \<open>Allocate\<close>
  and not freed since), every slot id that \<open>Allocate\<close> has returned so far and every
  slot id that has been passed to \<open>Free\<close> so far.
\<close>

datatype call = Call_Allocate sint32 sint32 | Call_Free CachedTextureInfo

record client =
  atlas :: Atlas
  live :: "CachedTextureInfo list"
  allocated :: "GLuint list"
  freed :: "GLuint list"

definition new_client :: "Atlas \<Rightarrow> client" where
  "new_client a = \<lparr>atlas = a, live = [], allocated = [], freed = []\<rparr>"

text \<open>
  The calls a well-behaved client makes: \<open>Allocate\<close> only when a slot is free, \<open>Free\<close>
  only of an info that is live.
\<close>

fun permitted :: "client \<Rightarrow> call \<Rightarrow> bool" where
  "permitted c (Call_Allocate w h) = (m_freeSlots (atlas c) \<noteq> [])"
| "permitted c (Call_Free info) = (info \<in> set (live c))"

fun perform :: "client \<Rightarrow> call \<Rightarrow> failure + client" where
  "perform c (Call_Allocate w h) =
     (case Allocate (atlas c) w h of
        Inl e \<Rightarrow> Inl e
      | Inr (info, a') \<Rightarrow>
          Inr (c\<lparr>atlas := a', live := info # live c, allocated := slot info # allocated c\<rparr>))"
| "perform c (Call_Free info) =
     (case Free (atlas c) info of
        Inl e \<Rightarrow> Inl e
      | Inr a' \<Rightarrow>
          Inr (c\<lparr>atlas := a', live := remove1 info (live c), freed := slot info # freed c\<rparr>))"

text \<open>
  Running a sequence of calls: \<open>None\<close> when the client makes a call that is not
  permitted, \<open>Some (Inl e)\<close> when a call fails, \<open>Some (Inr c)\<close> otherwise.
\<close>

fun run :: "client \<Rightarrow> call list \<Rightarrow> (failure + client) option" where
  "run c [] = Some (Inr c)"
| "run c (x # xs) =
     (if \<not> permitted c x then None
      else case perform c x of
             Inl e \<Rightarrow> Some (Inl e)
           | Inr c' \<Rightarrow> run c' xs)"

text \<open>
  The invariant of such runs on an atlas that \<open>Initialise\<close> left as \<open>a1\<close>: the grid and
  the index do not change, the free and the live slot ids are pairwise distinct and
  are together the slot ids of \<open>a1\<close>, every live info carries the atlas's index, and a
  slot id that was ever allocated is live or has been freed.
\<close>

definition client_inv :: "Atlas \<Rightarrow> client \<Rightarrow> bool" where
  "client_inv a1 c \<longleftrightarrow>
     m_cols (atlas c) = m_cols a1 \<and> m_index (atlas c) = m_index a1
     \<and> distinct (m_freeSlots (atlas c) @ map slot (live c))
     \<and> set (m_freeSlots (atlas c)) \<union> slot ` set (live c) = set (m_freeSlots a1)
     \<and> index ` set (live c) \<subseteq> {m_index a1}
     \<and> slot ` set (live c) \<subseteq> set (allocated c)
     \<and> set (allocated c) \<subseteq> slot ` set (live c) \<union> set (freed c)"

section \<open>GlyphId: key equality and width\<close>

lemma GlyphId_Equal_iff: "GlyphId_Equal lhs rhs \<longleftrightarrow> lhs = rhs"
  by (cases lhs, cases rhs) (auto simp: GlyphId_Equal_def)

text \<open>
  C9. \<open>GlyphId::Equal\<close> holds exactly when both the \<open>Image\<close> and the \<open>Palette\<close>
  fields agree; \<open>GlyphId::Hash\<close> is a function of the key and gives equal hashes on
  keys that are \<open>Equal\<close>; the same image id with two different palettes gives two keys
  that are not \<open>Equal\<close>.
\<close>

theorem GlyphId_key_equality:
  "(GlyphId_Equal lhs rhs \<longleftrightarrow> Image lhs = Image rhs \<and> Palette lhs = Palette rhs)
   \<and> (GlyphId_Equal lhs rhs \<longrightarrow> GlyphId_Hash lhs = GlyphId_Hash rhs)
   \<and> (p1 \<noteq> p2 \<longrightarrow>
        \<not> GlyphId_Equal \<lparr>Image = i, Palette = p1\<rparr> \<lparr>Image = i, Palette = p2\<rparr>
        \<and> \<lparr>Image = i, Palette = p1\<rparr> \<noteq> \<lparr>Image = i, Palette = p2\<rparr>)"
proof -
  have "GlyphId_Hash lhs = GlyphId_Hash rhs" if "GlyphId_Equal lhs rhs"
    using that by (simp add: GlyphId_Equal_iff)
  then show ?thesis
    by (auto simp: GlyphId_Equal_def)
qed

theorem GlyphId_key_equality_witness:
  "GlyphId_Equal \<lparr>Image = 7, Palette = 3\<rparr> \<lparr>Image = 7, Palette = 3\<rparr>
   \<and> GlyphId_Hash \<lparr>Image = 7, Palette = 3\<rparr> = 88
   \<and> (1 :: uint64) \<noteq> 2
   \<and> \<not> GlyphId_Equal \<lparr>Image = 7, Palette = 1\<rparr> \<lparr>Image = 7, Palette = 2\<rparr>"
  using GlyphId_key_equality [of "\<lparr>Image = 7, Palette = 3\<rparr>" "\<lparr>Image = 7, Palette = 3\<rparr>" 1 2 7]
  by (simp add: GlyphId_Hash_def)

text \<open>
  C5, as stated: the palette component of the key is a 96-bit value. It is not: the
  \<open>Palette\<close> field is a \<open>uint64\<close>, so the value \<open>2 ^ 64\<close>, which 96 bits would
  hold, is stored as 0.
\<close>

theorem Palette_not_96_bits:
  "size (Palette \<lparr>Image = 0, Palette = 0\<rparr>) \<noteq> (96 :: nat)
   \<and> Palette \<lparr>Image = 0, Palette = 2 ^ 64\<rparr> = Palette \<lparr>Image = 0, Palette = 0\<rparr>"
  by (simp add: word_size)

text \<open>
  C5, amended: the glyph map key is the pair (image identifier, palette), where the
  image identifier is a 32-bit value and the palette is a 64-bit value; the two
  together make 96 bits.
\<close>

theorem GlyphId_key_widths:
  "size (Image k) = 32 \<and> size (Palette k) = 64 \<and> size (Image k) + size (Palette k) = 96
   \<and> unat (Image k) < 2 ^ 32 \<and> unat (Palette k) < 2 ^ 64"
  using unsigned_less [of "Palette k"] unsigned_less [of "Image k"] by (simp add: word_size)

section \<open>Initialise\<close>

lemma length_vector_resize: "length (vector_resize n v) = n"
  by (simp add: vector_resize_def)

lemma Initialise_loop_eq:
  "i \<le> length v \<Longrightarrow> Initialise_loop i v = take i v @ map word_of_nat [i..<length v]"
proof (induction i v rule: Initialise_loop.induct)
  case (1 i v)
  show ?case
  proof (cases "i < length v")
    case True
    then have "Initialise_loop i v = Initialise_loop (i + 1) (v[i := word_of_nat i])"
      by (subst Initialise_loop.simps) simp
    also have "\<dots> = take (i + 1) (v[i := word_of_nat i]) @ map word_of_nat [i + 1..<length v]"
      using "1.IH" [OF True] True by simp
    also have "take (i + 1) (v[i := word_of_nat i]) = take i v @ [word_of_nat i]"
      using True by (simp add: take_Suc_conv_app_nth)
    finally show ?thesis
      using True by (simp add: upt_conv_Cons)
  next
    case False
    with "1.prems" have "i = length v" by simp
    then show ?thesis
      by (subst Initialise_loop.simps) simp
  qed
qed

lemma Initialise_loop_resize:
  "Initialise_loop 0 (vector_resize n v) = map word_of_nat [0..<n]"
  by (simp add: Initialise_loop_eq length_vector_resize)

lemma Initialise_traps:
  "Initialise (Atlas_ctor i 0) w h = Inl DivisionByZero"
  "Initialise (Atlas_ctor i (- 1)) INT32_MIN h = Inl DivisionOverflow"
  "Initialise (Atlas_ctor i (- 1)) 64 INT32_MIN = Inl DivisionOverflow"
  by (simp_all add: Initialise_def sint32_div_traps_def Atlas_ctor_def INT32_MIN_def)

lemma Initialise_Inr:
  "Initialise a w h = Inr a' \<longleftrightarrow>
     m_imageSize a \<noteq> 0
     \<and> \<not> (m_imageSize a = - 1 \<and> (w = INT32_MIN \<or> h = INT32_MIN))
     \<and> \<not> sint32_div w (m_imageSize a) * sint32_div h (m_imageSize a) <s 0
     \<and> a' = a\<lparr>m_atlasWidth := w, m_atlasHeight := h,
               m_cols := sint32_div w (m_imageSize a), m_rows := sint32_div h (m_imageSize a),
               m_freeSlots := map word_of_nat
                 [0..<unat (sint32_div w (m_imageSize a) * sint32_div h (m_imageSize a))]\<rparr>"
  by (auto simp: Initialise_def sint32_div_traps_def Let_def Initialise_loop_resize)

section \<open>Signed arithmetic that stays in range\<close>

lemma sint_nonneg_unat:
  fixes x :: sint32
  assumes "0 \<le> sint x"
  shows "int (unat x) = sint x"
proof -
  have "sint x < 2 ^ (LENGTH(32) - 1)" by (rule sint_lt)
  also have "\<dots> \<le> (2 :: int) ^ LENGTH(32)" by (rule power_increasing) simp_all
  finally have b: "sint x < 2 ^ LENGTH(32)" .
  have "uint x = uint (word_of_int (sint x) :: sint32)" by simp
  also have "\<dots> = take_bit LENGTH(32) (sint x)" by (rule uint_word_of_int_eq)
  also have "\<dots> = sint x" using assms b by (rule take_bit_int_eq_self)
  finally show ?thesis by (simp only: uint_nat)
qed

lemma signed_take_bit_31_small:
  assumes "- (2 ^ 31) \<le> k" "k < 2 ^ 31"
  shows "signed_take_bit (LENGTH(32) - 1) k = (k :: int)"
  using assms by (intro signed_take_bit_int_eq_self) simp_all

lemma sint_word_of_int_small:
  assumes "- (2 ^ 31) \<le> k" "k < 2 ^ 31"
  shows "sint (word_of_int k :: sint32) = k"
  by (simp only: sint_sbintrunc' signed_take_bit_31_small [OF assms])

lemma sint_mult_small:
  fixes c r :: sint32
  assumes "0 \<le> sint c" "0 \<le> sint r" "sint c * sint r < 2 ^ 31"
  shows "sint (c * r) = sint c * sint r"
proof -
  have "- (2 ^ 31) \<le> sint c * sint r"
    using assms(1,2) by (meson order_trans mult_nonneg_nonneg neg_le_0_iff_le zero_le_numeral zero_le_power)
  then show ?thesis
    by (simp only: sint_word_mult signed_take_bit_31_small [OF _ assms(3)])
qed

lemma sint32_div_nonneg:
  assumes "0 \<le> sint w" "0 < sint s"
  shows "sint (sint32_div w s) = sint w div sint s"
proof -
  have eq: "sint w sdiv sint s = sint w div sint s"
    using assms by (simp add: signed_divide_int_def sgn_if)
  have "0 \<le> sint w div sint s" using assms by (simp add: pos_imp_zdiv_nonneg_iff)
  then have lo: "- (2 ^ 31) \<le> sint w div sint s" by simp
  have "sint w div sint s \<le> sint w"
    using assms by (metis div_0 int_div_le_self leI nle_le)
  moreover have "sint w < 2 ^ 31" using sint_lt [of w] by simp
  ultimately have hi: "sint w div sint s < 2 ^ 31" by simp
  show ?thesis
    by (simp only: sint32_div_def eq sint_word_of_int_small [OF lo hi])
qed

lemma sint_power2:
  assumes "k < 31"
  shows "sint (2 ^ k :: sint32) = 2 ^ k"
proof -
  have lt: "(2::int) ^ k < 2 ^ 31" using assms by (intro power_strict_increasing) simp_all
  have lo: "- (2 ^ 31) \<le> (2::int) ^ k"
    by (rule order_trans [of _ 0]) simp_all
  have "(2 ^ k :: sint32) = word_of_int (2 ^ k)" by simp
  then show ?thesis by (simp only: sint_word_of_int_small [OF lo lt])
qed

section \<open>The free slots after Initialise\<close>

lemma GetFreeSlots_Initialise:
  "Initialise a w h = Inr a' \<Longrightarrow>
     GetFreeSlots a' = sint32_div w (m_imageSize a) * sint32_div h (m_imageSize a)"
  by (simp add: Initialise_Inr GetFreeSlots_def)

lemma length_freeSlots_Initialise:
  "Initialise a w h = Inr a' \<Longrightarrow>
     length (m_freeSlots a') = unat (sint32_div w (m_imageSize a) * sint32_div h (m_imageSize a))"
  by (simp add: Initialise_Inr)

lemma Initialise_32_2048:
  "m_imageSize a = 32 \<Longrightarrow>
     \<exists>a1. Initialise a 2048 2048 = Inr a1 \<and> GetFreeSlots a1 = 4096
           \<and> length (m_freeSlots a1) = 4096"
  by (simp add: Initialise_Inr GetFreeSlots_def sint32_div_def word_sless_alt)

text \<open>
  C7. After \<open>Initialise (w, h)\<close> the number of free slots is
  \<open>(w / imageSize) * (h / imageSize)\<close>: as the 32-bit product that the code computes
  whenever \<open>Initialise\<close> returns, and as the product of the integer quotients whenever
  the sizes are not negative, \<open>imageSize\<close> is positive and the product fits a
  \<open>sint32\<close> (then \<open>Initialise\<close> does return). With \<open>imageSize\<close> 32,
  \<open>Initialise (2048, 2048)\<close> leaves 4096 free slots.
\<close>

theorem Initialise_free_slot_count:
  "(Initialise a w h = Inr a' \<longrightarrow>
      GetFreeSlots a' = sint32_div w (m_imageSize a) * sint32_div h (m_imageSize a)
      \<and> length (m_freeSlots a') =
          unat (sint32_div w (m_imageSize a) * sint32_div h (m_imageSize a)))
   \<and> (0 < sint (m_imageSize a) \<and> 0 \<le> sint w \<and> 0 \<le> sint h
        \<and> (sint w div sint (m_imageSize a)) * (sint h div sint (m_imageSize a)) < 2 ^ 31 \<longrightarrow>
        (\<exists>a1. Initialise a w h = Inr a1
           \<and> sint (GetFreeSlots a1) =
               (sint w div sint (m_imageSize a)) * (sint h div sint (m_imageSize a))
           \<and> int (length (m_freeSlots a1)) =
               (sint w div sint (m_imageSize a)) * (sint h div sint (m_imageSize a))))
   \<and> (m_imageSize a = 32 \<longrightarrow>
        (\<exists>a1. Initialise a 2048 2048 = Inr a1 \<and> GetFreeSlots a1 = 4096
           \<and> length (m_freeSlots a1) = 4096))"
proof (intro conjI impI)
  assume "Initialise a w h = Inr a'"
  then show "GetFreeSlots a' = sint32_div w (m_imageSize a) * sint32_div h (m_imageSize a)"
    and "length (m_freeSlots a') =
          unat (sint32_div w (m_imageSize a) * sint32_div h (m_imageSize a))"
    by (simp_all only: GetFreeSlots_Initialise length_freeSlots_Initialise)
next
  let ?s = "m_imageSize a"
  let ?c = "sint32_div w ?s" and ?r = "sint32_div h ?s"
  assume h: "0 < sint ?s \<and> 0 \<le> sint w \<and> 0 \<le> sint h
        \<and> (sint w div sint ?s) * (sint h div sint ?s) < 2 ^ 31"
  then have c: "sint ?c = sint w div sint ?s" and r: "sint ?r = sint h div sint ?s"
    by (simp_all add: sint32_div_nonneg)
  have c0: "0 \<le> sint ?c" and r0: "0 \<le> sint ?r"
    using h by (simp_all add: c r pos_imp_zdiv_nonneg_iff)
  have "sint ?c * sint ?r < 2 ^ 31" using h by (simp only: c r)
  then have p: "sint (?c * ?r) = (sint w div sint ?s) * (sint h div sint ?s)"
    using sint_mult_small [OF c0 r0] by (simp only: c r)
  have p0: "0 \<le> sint (?c * ?r)" using c0 r0 by (simp only: p c r mult_nonneg_nonneg)
  have nz: "?s \<noteq> 0" using h by auto
  have n1: "?s \<noteq> - 1" using h by auto
  have nn: "\<not> ?c * ?r <s 0" using p0 by (simp add: word_sless_alt)
  obtain a1 where a1: "Initialise a w h = Inr a1"
    using nz n1 nn by (simp add: Initialise_Inr)
  have g: "GetFreeSlots a1 = ?c * ?r" using a1 by (rule GetFreeSlots_Initialise)
  have l: "length (m_freeSlots a1) = unat (?c * ?r)" using a1 by (rule length_freeSlots_Initialise)
  have "int (unat (?c * ?r)) = sint (?c * ?r)"
    using p0 by (rule sint_nonneg_unat)
  with a1 g l p show "\<exists>a1. Initialise a w h = Inr a1
           \<and> sint (GetFreeSlots a1) =
               (sint w div sint (m_imageSize a)) * (sint h div sint (m_imageSize a))
           \<and> int (length (m_freeSlots a1)) =
               (sint w div sint (m_imageSize a)) * (sint h div sint (m_imageSize a))"
    by auto
next
  assume "m_imageSize a = 32"
  then show "\<exists>a1. Initialise a 2048 2048 = Inr a1 \<and> GetFreeSlots a1 = 4096
           \<and> length (m_freeSlots a1) = 4096"
    by (rule Initialise_32_2048)
qed

theorem Initialise_free_slot_count_witness:
  "(\<exists>a1. Initialise (Atlas_ctor 0 32) 2048 2048 = Inr a1 \<and> GetFreeSlots a1 = 4096
          \<and> length (m_freeSlots a1) = 4096)
   \<and> (\<exists>a1. Initialise (Atlas_ctor 0 32) 100 70 = Inr a1 \<and> sint (GetFreeSlots a1) = 6
          \<and> int (length (m_freeSlots a1)) = 6)"
  using Initialise_free_slot_count [of "Atlas_ctor 0 32" 100 70]
  by (simp add: Atlas_ctor_def)

section \<open>Allocate\<close>

lemma sint32_div_zero_left: "sint32_div 0 s = 0"
  by (simp add: sint32_div_def)

lemma Initialise_nonempty_grid:
  assumes "Initialise a0 W H = Inr a1" "m_freeSlots a1 \<noteq> []"
  shows "m_cols a1 \<noteq> 0" "m_rows a1 \<noteq> 0" "m_atlasWidth a1 \<noteq> 0" "m_atlasHeight a1 \<noteq> 0"
proof -
  let ?c = "sint32_div W (m_imageSize a0)" and ?r = "sint32_div H (m_imageSize a0)"
  from assms have "unat (?c * ?r) \<noteq> 0"
    by (auto simp: Initialise_Inr)
  then have "?c * ?r \<noteq> 0" by (auto simp: unat_eq_0)
  then have c: "?c \<noteq> 0" and r: "?r \<noteq> 0" by auto
  from c r assms(1) show "m_cols a1 \<noteq> 0" "m_rows a1 \<noteq> 0"
    by (auto simp: Initialise_Inr)
  from c have "W \<noteq> 0" using sint32_div_zero_left by metis
  moreover from r have "H \<noteq> 0" using sint32_div_zero_left by metis
  ultimately show "m_atlasWidth a1 \<noteq> 0" "m_atlasHeight a1 \<noteq> 0"
    using assms(1) by (auto simp: Initialise_Inr)
qed

lemma float_of_sint32_small: "\<bar>sint v\<bar> \<le> 2 ^ 24 \<Longrightarrow> float_of_sint32 v = sint v"
  by (simp add: float_of_sint32_def)

lemmas float_eval =
  float_of_sint32_def float_div_def scale_up_def round_nearest_even_def bit_length.simps Let_def

text \<open>
  Some values: integers beyond \<open>2 ^ 24\<close> are rounded by the conversion, and quotients
  that are not floats are rounded by the division.
\<close>

lemma float_examples:
  "float_of_sint32 2048 = 2048"
  "float_of_sint32 16777217 = 16777216"
  "float_of_sint32 33554435 = 33554436"
  "float_of_sint32 2147483647 = 2147483648"
  "float_div 52 64 = Finite (13 / 16)"
  "float_div 64 100 = Finite (5368709 / 8388608)"
  "float_div 1 3 = Finite (11184811 / 33554432)"
  "float_div (- 42) 70 = Finite (- (5033165 / 8388608))"
  "float_div 0 70 = Finite 0"
  "float_div 70 0 = NonFinite"
  by (simp_all add: float_eval)


lemma bit_length_pos: "0 < n \<Longrightarrow> bit_length n = Suc (bit_length (n div 2))"
  by (subst bit_length.simps) simp

lemma bit_length_1: "bit_length 1 = 1"
  by (simp add: bit_length_pos bit_length.simps [of 0])

lemma bit_length_eqI:
  "2 ^ j \<le> n \<Longrightarrow> n < 2 ^ (j + 1) \<Longrightarrow> bit_length n = j + 1"
proof (induction j arbitrary: n)
  case 0
  then have "n = 1" by simp
  then show ?case by (simp add: bit_length_1)
next
  case (Suc j)
  from Suc.prems have "2 ^ j \<le> n div 2" by simp
  moreover from Suc.prems have "n div 2 < 2 ^ (j + 1)" by simp
  ultimately have "bit_length (n div 2) = j + 1" by (rule Suc.IH)
  moreover have "(0::int) < 2 ^ Suc j" by simp
  then have "0 < n" using Suc.prems(1) by linarith
  ultimately show ?case by (simp add: bit_length_pos)
qed

lemma bit_length_power2: "bit_length (2 ^ k) = k + 1"
  by (rule bit_length_eqI) simp_all

lemma bit_length_bounds:
  assumes "0 < n"
  obtains j where "2 ^ j \<le> n" "n < 2 ^ (j + 1)" "bit_length n = j + 1"
proof -
  have "1 \<le> nat n" using assms by simp
  from ex_power_ivl1 [OF order_refl this] obtain j where
    j: "2 ^ j \<le> nat n" "nat n < 2 ^ (j + 1)" by auto
  have "int (2 ^ j) \<le> int (nat n)" using j(1) by (simp only: of_nat_le_iff)
  then have a: "2 ^ j \<le> n" using assms by simp
  have "int (nat n) < int (2 ^ (j + 1))" using j(2) by (simp only: of_nat_less_iff)
  then have b: "n < 2 ^ (j + 1)" using assms by simp
  from that [OF a b bit_length_eqI [OF a b]] show ?thesis .
qed

lemma round_nearest_even_exact:
  assumes "0 < d"
  shows "round_nearest_even (m * d) d = m"
  using assms by (simp add: round_nearest_even_def)

lemma scale_up_neg: "e \<le> 0 \<Longrightarrow> scale_up n e = n"
  by (simp add: scale_up_def)

lemma scale_up_nat: "scale_up n (int i) = n * 2 ^ i"
  by (simp add: scale_up_def)

text \<open>
  What \<open>float_div\<close> computes on a dividend of \<open>j + 1\<close> bits, at most 24, and the divisor
  \<open>2 ^ k\<close>: the exact quotient, which is a float.
\<close>

lemma float_div_power2_aux:
  fixes a :: int and j t k :: nat
  assumes a0: "a \<noteq> 0" and bl: "bit_length \<bar>a\<bar> = j + 1" and lo: "2 ^ j \<le> \<bar>a\<bar>"
    and t: "j + t = 23"
  shows "float_div a (2 ^ k) = Finite (real_of_int a / 2 ^ k)"
proof -
  let ?b = "(2::int) ^ k"
  have bb: "bit_length \<bar>?b\<bar> = k + 1" by (simp add: bit_length_power2)
  have jt: "int j = 23 - int t" using t by linarith
  have e0: "int (bit_length \<bar>a\<bar>) - int (bit_length \<bar>?b\<bar>) - 24 = - int (k + t + 1)"
    by (simp add: bl bit_length_power2 jt)
  have s1: "scale_up \<bar>a\<bar> (int (k + t + 1)) = (\<bar>a\<bar> * 2 ^ (t + 1)) * 2 ^ k"
    by (simp only: scale_up_nat) (simp add: power_add)
  have s2: "scale_up \<bar>?b\<bar> (- int (k + t + 1)) = 2 ^ k"
    by (simp add: scale_up_neg)
  have d: "scale_up \<bar>a\<bar> (int (k + t + 1)) div scale_up \<bar>?b\<bar> (- int (k + t + 1))
             = \<bar>a\<bar> * 2 ^ (t + 1)"
    by (simp only: s1 s2) simp
  have "(2::int) ^ 24 = 2 ^ (j + (t + 1))" using t by simp
  also have "\<dots> = 2 ^ j * 2 ^ (t + 1)" by (rule power_add)
  also have "\<dots> \<le> \<bar>a\<bar> * 2 ^ (t + 1)" using lo by (intro mult_right_mono) simp_all
  finally have big: "2 ^ 24 \<le> \<bar>a\<bar> * 2 ^ (t + 1)" .
  have e: "- int (k + t + 1) + 1 = - int (k + t)" by simp
  have s3: "scale_up \<bar>a\<bar> (int (k + t)) = (\<bar>a\<bar> * 2 ^ t) * 2 ^ k"
    by (simp only: scale_up_nat) (simp add: power_add)
  have s4: "scale_up \<bar>?b\<bar> (- int (k + t)) = 2 ^ k"
    by (simp add: scale_up_neg)
  have r: "round_nearest_even (scale_up \<bar>a\<bar> (int (k + t))) (scale_up \<bar>?b\<bar> (- int (k + t)))
             = \<bar>a\<bar> * 2 ^ t"
    by (simp only: s3 s4) (rule round_nearest_even_exact, simp)
  have q: "sgn a * sgn ?b * (\<bar>a\<bar> * 2 ^ t) = a * 2 ^ t"
    by (simp add: sgn_if)
  have v: "(if 0 \<le> - int (k + t) then real_of_int (a * 2 ^ t * 2 ^ nat (- int (k + t)))
            else real_of_int (a * 2 ^ t) / 2 ^ nat (int (k + t))) = real_of_int a / 2 ^ k"
  proof (cases "k + t = 0")
    case True
    then show ?thesis by simp
  next
    case False
    then have "\<not> 0 \<le> - int (k + t)" by linarith
    then show ?thesis by (simp only: if_False nat_int) (simp add: power_add)
  qed
  have b0: "?b \<noteq> 0" by simp
  show ?thesis
    unfolding float_div_def Let_def
    by (simp only: b0 a0 if_False e0 minus_minus d big if_True e r q v)
qed

lemma float_div_power2_exact:
  assumes small: "\<bar>a\<bar> < 2 ^ 24"
  shows "float_div a (2 ^ k) = Finite (real_of_int a / 2 ^ k)"
proof (cases "a = 0")
  case True
  then show ?thesis by (simp add: float_div_def)
next
  case False
  then have pos: "0 < \<bar>a\<bar>" by simp
  from bit_length_bounds [OF pos] obtain j where
    j: "2 ^ j \<le> \<bar>a\<bar>" "\<bar>a\<bar> < 2 ^ (j + 1)" and bl: "bit_length \<bar>a\<bar> = j + 1"
    by blast
  have "(2::int) ^ j < 2 ^ 24" using j(1) small by linarith
  then have "j < 24" by (rule power_less_imp_less_exp [rotated]) simp
  then have t: "j + (23 - j) = 23" by simp
  from float_div_power2_aux [OF False bl j(1) t] show ?thesis .
qed

lemma normalized_exact:
  fixes c :: sint32
  assumes p: "p \<le> 24" and c: "\<bar>sint c\<bar> < 2 ^ 24"
  shows "float_div (float_of_sint32 c) (float_of_sint32 (2 ^ p)) =
           Finite (real_of_int (sint c) / real_of_int (sint (2 ^ p :: sint32)))"
proof -
  have sp: "sint (2 ^ p :: sint32) = 2 ^ p" using p by (intro sint_power2) simp
  have "(2::int) ^ p \<le> 2 ^ 24" using p by (intro power_increasing) simp_all
  then have "\<bar>sint (2 ^ p :: sint32)\<bar> \<le> 2 ^ 24" by (simp only: sp) simp
  then have fp: "float_of_sint32 (2 ^ p) = 2 ^ p"
    by (simp only: float_of_sint32_small sp)
  have fc: "float_of_sint32 c = sint c"
    using c by (intro float_of_sint32_small) simp
  show ?thesis
    by (simp only: fp fc sp float_div_power2_exact [OF c] of_int_power of_int_numeral)
qed

lemma Allocate_eq:
  assumes "m_freeSlots a \<noteq> []" "m_cols a \<noteq> 0"
  shows "Allocate a actualWidth actualHeight =
    Inr (\<lparr>index = m_index a,
          slot = last (m_freeSlots a),
          bounds =
            \<lparr>ivec4_x = m_imageSize a * (last (m_freeSlots a) mod m_cols a),
             ivec4_y = m_imageSize a * (last (m_freeSlots a) div m_cols a),
             ivec4_z = m_imageSize a * (last (m_freeSlots a) mod m_cols a) + actualWidth,
             ivec4_w = m_imageSize a * (last (m_freeSlots a) div m_cols a) + actualHeight\<rparr>,
          normalizedBounds =
            \<lparr>vec4_x = float_div
                       (float_of_sint32 (m_imageSize a * (last (m_freeSlots a) mod m_cols a)))
                       (float_of_sint32 (m_atlasWidth a)),
             vec4_y = float_div
                       (float_of_sint32 (m_imageSize a * (last (m_freeSlots a) div m_cols a)))
                       (float_of_sint32 (m_atlasHeight a)),
             vec4_z = float_div
                       (float_of_sint32
                          (m_imageSize a * (last (m_freeSlots a) mod m_cols a) + actualWidth))
                       (float_of_sint32 (m_atlasWidth a)),
             vec4_w = float_div
                       (float_of_sint32
                          (m_imageSize a * (last (m_freeSlots a) div m_cols a) + actualHeight))
                       (float_of_sint32 (m_atlasHeight a))\<rparr>,
          computedBounds = vec4_value_init\<rparr>,
         a\<lparr>m_freeSlots := butlast (m_freeSlots a)\<rparr>)"
  using assms
  by (simp add: Allocate_def GetSlotCoordinates_def NormalizeCoordinates_def Let_def)

lemma Allocate_div_by_zero:
  "m_freeSlots a \<noteq> [] \<Longrightarrow> m_cols a = 0 \<Longrightarrow> Allocate a w h = Inl DivisionByZero"
  by (simp add: Allocate_def GetSlotCoordinates_def)

lemma Allocate_empty: "m_freeSlots a = [] \<Longrightarrow> Allocate a w h = Inl AssertionFailed"
  by (simp add: Allocate_def)

lemma Allocate_slot:
  assumes "m_freeSlots a \<noteq> []" "m_cols a \<noteq> 0"
  shows "\<exists>info. Allocate a w h = Inr (info, a\<lparr>m_freeSlots := butlast (m_freeSlots a)\<rparr>)
           \<and> slot info = last (m_freeSlots a) \<and> index info = m_index a"
  using assms by (simp add: Allocate_def GetSlotCoordinates_def Let_def)

lemma Initialise_64_64:
  "Initialise (Atlas_ctor i 32) 64 64 =
     Inr \<lparr>m_index = i, m_imageSize = 32, m_atlasWidth = 64, m_atlasHeight = 64,
          m_freeSlots = [0, 1, 2, 3], m_cols = 2, m_rows = 2\<rparr>"
  by (simp add: Initialise_Inr Atlas_ctor_def sint32_div_def word_sless_alt upt_conv_Cons)

lemma Initialise_100_70:
  "Initialise (Atlas_ctor i 32) 100 70 =
     Inr \<lparr>m_index = i, m_imageSize = 32, m_atlasWidth = 100, m_atlasHeight = 70,
          m_freeSlots = [0, 1, 2, 3, 4, 5], m_cols = 3, m_rows = 2\<rparr>"
  by (simp add: Initialise_Inr Atlas_ctor_def sint32_div_def word_sless_alt upt_conv_Cons
      INT32_MIN_def)

text \<open>
  C1, amended. On an atlas that \<open>Initialise\<close> gave a grid of at least one slot and that
  has a free slot, \<open>Allocate\<close> pops the last free slot id and returns an info whose
  \<open>index\<close> is the atlas's, whose \<open>slot\<close> is the popped id, whose \<open>bounds\<close> are
  \<open>(imageSize * col, imageSize * row, imageSize * col + actualWidth,
  imageSize * row + actualHeight)\<close> with \<open>row = slot / cols\<close> and \<open>col = slot % cols\<close>,
  and whose \<open>normalizedBounds\<close> are these bounds divided by the atlas width and
  height in single precision. The quotients are the exact ones when the width and the
  height are powers of two up to \<open>2 ^ 24\<close> and the bounds are below \<open>2 ^ 24\<close> in
  magnitude. \<open>computedBounds\<close> is not computed: it is value-initialised, all zero.
\<close>

theorem Allocate_populates_four_fields:
  assumes "Initialise a0 atlasWidth atlasHeight = Inr a1"
    and "m_freeSlots a1 \<noteq> []"
    and "fs \<noteq> []"
  shows "Allocate (a1\<lparr>m_freeSlots := fs\<rparr>) actualWidth actualHeight =
    (let slt = last fs;
         row = slt div m_cols a1;
         col = slt mod m_cols a1;
         bnds = \<lparr>ivec4_x = m_imageSize a1 * col,
                 ivec4_y = m_imageSize a1 * row,
                 ivec4_z = m_imageSize a1 * col + actualWidth,
                 ivec4_w = m_imageSize a1 * row + actualHeight\<rparr>
     in Inr (\<lparr>index = m_index a1, slot = slt, bounds = bnds,
              normalizedBounds =
                \<lparr>vec4_x = float_div (float_of_sint32 (ivec4_x bnds)) (float_of_sint32 atlasWidth),
                 vec4_y = float_div (float_of_sint32 (ivec4_y bnds)) (float_of_sint32 atlasHeight),
                 vec4_z = float_div (float_of_sint32 (ivec4_z bnds)) (float_of_sint32 atlasWidth),
                 vec4_w = float_div (float_of_sint32 (ivec4_w bnds)) (float_of_sint32 atlasHeight)\<rparr>,
              computedBounds = vec4_value_init\<rparr>,
             a1\<lparr>m_freeSlots := butlast fs\<rparr>))
    \<and> m_index a1 = m_index a0 \<and> m_imageSize a1 = m_imageSize a0
    \<and> m_cols a1 = sint32_div atlasWidth (m_imageSize a0)
    \<and> m_rows a1 = sint32_div atlasHeight (m_imageSize a0)
    \<and> (\<forall>info a' p q.
          Allocate (a1\<lparr>m_freeSlots := fs\<rparr>) actualWidth actualHeight = Inr (info, a')
          \<and> atlasWidth = 2 ^ p \<and> p \<le> 24 \<and> atlasHeight = 2 ^ q \<and> q \<le> 24
          \<and> \<bar>sint (ivec4_x (bounds info))\<bar> < 2 ^ 24 \<and> \<bar>sint (ivec4_y (bounds info))\<bar> < 2 ^ 24
          \<and> \<bar>sint (ivec4_z (bounds info))\<bar> < 2 ^ 24 \<and> \<bar>sint (ivec4_w (bounds info))\<bar> < 2 ^ 24
          \<longrightarrow>
          normalizedBounds info =
            \<lparr>vec4_x = Finite (real_of_int (sint (ivec4_x (bounds info)))
                             / real_of_int (sint atlasWidth)),
             vec4_y = Finite (real_of_int (sint (ivec4_y (bounds info)))
                             / real_of_int (sint atlasHeight)),
             vec4_z = Finite (real_of_int (sint (ivec4_z (bounds info)))
                             / real_of_int (sint atlasWidth)),
             vec4_w = Finite (real_of_int (sint (ivec4_w (bounds info)))
                             / real_of_int (sint atlasHeight))\<rparr>)"
proof -
  let ?a = "a1\<lparr>m_freeSlots := fs\<rparr>"
  note g = Initialise_nonempty_grid [OF assms(1,2)]
  have w: "m_atlasWidth a1 = atlasWidth" and h: "m_atlasHeight a1 = atlasHeight"
    using assms(1) by (auto simp: Initialise_Inr)
  have "m_freeSlots ?a \<noteq> []" "m_cols ?a \<noteq> 0"
    using g assms(3) by simp_all
  from Allocate_eq [OF this, of actualWidth actualHeight]
  have al: "Allocate ?a actualWidth actualHeight =
    (let slt = last fs;
         row = slt div m_cols a1;
         col = slt mod m_cols a1;
         bnds = \<lparr>ivec4_x = m_imageSize a1 * col,
                 ivec4_y = m_imageSize a1 * row,
                 ivec4_z = m_imageSize a1 * col + actualWidth,
                 ivec4_w = m_imageSize a1 * row + actualHeight\<rparr>
     in Inr (\<lparr>index = m_index a1, slot = slt, bounds = bnds,
              normalizedBounds =
                \<lparr>vec4_x = float_div (float_of_sint32 (ivec4_x bnds)) (float_of_sint32 atlasWidth),
                 vec4_y = float_div (float_of_sint32 (ivec4_y bnds)) (float_of_sint32 atlasHeight),
                 vec4_z = float_div (float_of_sint32 (ivec4_z bnds)) (float_of_sint32 atlasWidth),
                 vec4_w = float_div (float_of_sint32 (ivec4_w bnds)) (float_of_sint32 atlasHeight)\<rparr>,
              computedBounds = vec4_value_init\<rparr>,
             a1\<lparr>m_freeSlots := butlast fs\<rparr>))"
    by (simp add: Let_def w h)
  have nb: "normalizedBounds info =
      \<lparr>vec4_x = float_div (float_of_sint32 (ivec4_x (bounds info))) (float_of_sint32 atlasWidth),
       vec4_y = float_div (float_of_sint32 (ivec4_y (bounds info))) (float_of_sint32 atlasHeight),
       vec4_z = float_div (float_of_sint32 (ivec4_z (bounds info))) (float_of_sint32 atlasWidth),
       vec4_w = float_div (float_of_sint32 (ivec4_w (bounds info))) (float_of_sint32 atlasHeight)\<rparr>"
    if "Allocate ?a actualWidth actualHeight = Inr (info, a')" for info a'
    using that by (auto simp: al Let_def)
  have ex: "normalizedBounds info =
            \<lparr>vec4_x = Finite (real_of_int (sint (ivec4_x (bounds info)))
                             / real_of_int (sint atlasWidth)),
             vec4_y = Finite (real_of_int (sint (ivec4_y (bounds info)))
                             / real_of_int (sint atlasHeight)),
             vec4_z = Finite (real_of_int (sint (ivec4_z (bounds info)))
                             / real_of_int (sint atlasWidth)),
             vec4_w = Finite (real_of_int (sint (ivec4_w (bounds info)))
                             / real_of_int (sint atlasHeight))\<rparr>"
    if "Allocate ?a actualWidth actualHeight = Inr (info, a')"
      and "atlasWidth = 2 ^ p" "p \<le> 24" "atlasHeight = 2 ^ q" "q \<le> 24"
      and "\<bar>sint (ivec4_x (bounds info))\<bar> < 2 ^ 24" "\<bar>sint (ivec4_y (bounds info))\<bar> < 2 ^ 24"
      and "\<bar>sint (ivec4_z (bounds info))\<bar> < 2 ^ 24" "\<bar>sint (ivec4_w (bounds info))\<bar> < 2 ^ 24"
    for info a' p q
    by (simp only: nb [OF that(1)] that(2,4)
        normalized_exact [OF that(3) that(6)] normalized_exact [OF that(5) that(7)]
        normalized_exact [OF that(3) that(8)] normalized_exact [OF that(5) that(9)])
  have rest: "m_index a1 = m_index a0" "m_imageSize a1 = m_imageSize a0"
    "m_cols a1 = sint32_div atlasWidth (m_imageSize a0)"
    "m_rows a1 = sint32_div atlasHeight (m_imageSize a0)"
    using assms(1) by (auto simp: Initialise_Inr)
  show ?thesis
    by (intro conjI allI impI al rest) (use ex in blast)
qed

theorem Allocate_populates_four_fields_witness:
  "Allocate \<lparr>m_index = 1, m_imageSize = 32, m_atlasWidth = 64, m_atlasHeight = 64,
             m_freeSlots = [0, 1, 2], m_cols = 2, m_rows = 2\<rparr> 20 10 =
     Inr (\<lparr>index = 1, slot = 2,
           bounds = \<lparr>ivec4_x = 0, ivec4_y = 32, ivec4_z = 20, ivec4_w = 42\<rparr>,
           normalizedBounds = \<lparr>vec4_x = Finite 0, vec4_y = Finite (1 / 2),
                               vec4_z = Finite (5 / 16), vec4_w = Finite (21 / 32)\<rparr>,
           computedBounds = vec4_value_init\<rparr>,
          \<lparr>m_index = 1, m_imageSize = 32, m_atlasWidth = 64, m_atlasHeight = 64,
             m_freeSlots = [0, 1], m_cols = 2, m_rows = 2\<rparr>)
   \<and> Allocate \<lparr>m_index = 1, m_imageSize = 32, m_atlasWidth = 100, m_atlasHeight = 70,
             m_freeSlots = [0, 1, 2, 3, 4, 5], m_cols = 3, m_rows = 2\<rparr> 20 10 =
     Inr (\<lparr>index = 1, slot = 5,
           bounds = \<lparr>ivec4_x = 64, ivec4_y = 32, ivec4_z = 84, ivec4_w = 42\<rparr>,
           normalizedBounds =
             \<lparr>vec4_x = Finite (5368709 / 8388608), vec4_y = Finite (15339169 / 33554432),
              vec4_z = Finite (14092861 / 16777216), vec4_w = Finite (5033165 / 8388608)\<rparr>,
           computedBounds = vec4_value_init\<rparr>,
          \<lparr>m_index = 1, m_imageSize = 32, m_atlasWidth = 100, m_atlasHeight = 70,
             m_freeSlots = [0, 1, 2, 3, 4], m_cols = 3, m_rows = 2\<rparr>)"
proof -
  note a = Allocate_populates_four_fields [OF Initialise_64_64 [of 1], of "[0, 1, 2]" 20 10,
      THEN conjunct1]
  note b = Allocate_populates_four_fields [OF Initialise_100_70 [of 1],
      of "[0, 1, 2, 3, 4, 5]" 20 10, THEN conjunct1]
  have "(2::sint32) ^ 6 = 64" by simp
  show ?thesis
    using a b by (simp add: float_eval)
qed

text \<open>
  C1, as stated, asks for every field of the returned info to be populated,
  \<open>computedBounds\<close> included, on every atlas that went through \<open>Initialise\<close> and has
  a free slot. On a 64 by 64 atlas of 32-pixel slots, \<open>Allocate (20, 10)\<close> returns slot
  3 with its bounds and normalized bounds, and a \<open>computedBounds\<close> that is all zero.
  And an atlas that \<open>Initialise (0, 0)\<close> left without columns, and that then received a
  slot through \<open>Free\<close>, has a free slot, but \<open>Allocate\<close> divides by zero.
\<close>

theorem Allocate_computedBounds_not_populated:
  "Initialise (Atlas_ctor 1 32) 64 64 =
     Inr \<lparr>m_index = 1, m_imageSize = 32, m_atlasWidth = 64, m_atlasHeight = 64,
          m_freeSlots = [0, 1, 2, 3], m_cols = 2, m_rows = 2\<rparr>
   \<and> Allocate \<lparr>m_index = 1, m_imageSize = 32, m_atlasWidth = 64, m_atlasHeight = 64,
               m_freeSlots = [0, 1, 2, 3], m_cols = 2, m_rows = 2\<rparr> 20 10 =
     Inr (\<lparr>index = 1, slot = 3,
           bounds = \<lparr>ivec4_x = 32, ivec4_y = 32, ivec4_z = 52, ivec4_w = 42\<rparr>,
           normalizedBounds = \<lparr>vec4_x = Finite (1 / 2), vec4_y = Finite (1 / 2),
                               vec4_z = Finite (13 / 16), vec4_w = Finite (21 / 32)\<rparr>,
           computedBounds = \<lparr>vec4_x = Finite 0, vec4_y = Finite 0,
                             vec4_z = Finite 0, vec4_w = Finite 0\<rparr>\<rparr>,
          \<lparr>m_index = 1, m_imageSize = 32, m_atlasWidth = 64, m_atlasHeight = 64,
             m_freeSlots = [0, 1, 2], m_cols = 2, m_rows = 2\<rparr>)
   \<and> Initialise (Atlas_ctor 1 32) 0 0 =
     Inr \<lparr>m_index = 1, m_imageSize = 32, m_atlasWidth = 0, m_atlasHeight = 0,
          m_freeSlots = [], m_cols = 0, m_rows = 0\<rparr>
   \<and> Free \<lparr>m_index = 1, m_imageSize = 32, m_atlasWidth = 0, m_atlasHeight = 0,
            m_freeSlots = [], m_cols = 0, m_rows = 0\<rparr>
          \<lparr>index = 1, slot = 3,
           bounds = \<lparr>ivec4_x = 32, ivec4_y = 32, ivec4_z = 52, ivec4_w = 42\<rparr>,
           normalizedBounds = \<lparr>vec4_x = Finite (1 / 2), vec4_y = Finite (1 / 2),
                               vec4_z = Finite (13 / 16), vec4_w = Finite (21 / 32)\<rparr>,
           computedBounds = vec4_value_init\<rparr> =
     Inr \<lparr>m_index = 1, m_imageSize = 32, m_atlasWidth = 0, m_atlasHeight = 0,
          m_freeSlots = [3], m_cols = 0, m_rows = 0\<rparr>
   \<and> Allocate \<lparr>m_index = 1, m_imageSize = 32, m_atlasWidth = 0, m_atlasHeight = 0,
               m_freeSlots = [3], m_cols = 0, m_rows = 0\<rparr> 20 10 = Inl DivisionByZero"
proof -
  have 1: "Allocate \<lparr>m_index = 1, m_imageSize = 32, m_atlasWidth = 64, m_atlasHeight = 64,
               m_freeSlots = [0, 1, 2, 3], m_cols = 2, m_rows = 2\<rparr> 20 10 =
     Inr (\<lparr>index = 1, slot = 3,
           bounds = \<lparr>ivec4_x = 32, ivec4_y = 32, ivec4_z = 52, ivec4_w = 42\<rparr>,
           normalizedBounds = \<lparr>vec4_x = Finite (1 / 2), vec4_y = Finite (1 / 2),
                               vec4_z = Finite (13 / 16), vec4_w = Finite (21 / 32)\<rparr>,
           computedBounds = \<lparr>vec4_x = Finite 0, vec4_y = Finite 0,
                             vec4_z = Finite 0, vec4_w = Finite 0\<rparr>\<rparr>,
          \<lparr>m_index = 1, m_imageSize = 32, m_atlasWidth = 64, m_atlasHeight = 64,
             m_freeSlots = [0, 1, 2], m_cols = 2, m_rows = 2\<rparr>)"
    by (simp add: Allocate_eq float_eval vec4_value_init_def)
  have 2: "Initialise (Atlas_ctor 1 32) 0 0 =
     Inr \<lparr>m_index = 1, m_imageSize = 32, m_atlasWidth = 0, m_atlasHeight = 0,
          m_freeSlots = [], m_cols = 0, m_rows = 0\<rparr>"
    by (simp add: Initialise_Inr Atlas_ctor_def sint32_div_def word_sless_alt)
  show ?thesis
    by (simp only: Initialise_64_64 1 2 simp_thms)
      (simp add: Free_def Allocate_div_by_zero)
qed

section \<open>Free\<close>

text \<open>
  C8. \<open>Free\<close> asserts that \<open>info.index\<close> is the atlas's own index and fails on the
  assertion when it is not. When the indices match, the assertion does not fire, the
  slot id is pushed on the free slots, and the number of free slots grows by one.
\<close>

theorem Free_contract:
  "(m_index a \<noteq> index info \<longrightarrow> Free a info = Inl AssertionFailed)
   \<and> (m_index a = index info \<longrightarrow>
        Free a info = Inr (a\<lparr>m_freeSlots := m_freeSlots a @ [slot info]\<rparr>)
        \<and> (\<forall>a'. Free a info = Inr a' \<longrightarrow>
              length (m_freeSlots a') = length (m_freeSlots a) + 1
              \<and> GetFreeSlots a' = GetFreeSlots a + 1))"
  by (simp add: Free_def GetFreeSlots_def)

theorem Free_contract_witness:
  "Free (Atlas_ctor 3 32)
     \<lparr>index = 3, slot = 5, bounds = \<lparr>ivec4_x = 0, ivec4_y = 0, ivec4_z = 0, ivec4_w = 0\<rparr>,
      normalizedBounds = vec4_value_init, computedBounds = vec4_value_init\<rparr>
     = Inr ((Atlas_ctor 3 32)\<lparr>m_freeSlots := [5]\<rparr>)
   \<and> GetFreeSlots (Atlas_ctor 3 32) = 0
   \<and> GetFreeSlots ((Atlas_ctor 3 32)\<lparr>m_freeSlots := [5]\<rparr>) = 1
   \<and> Free (Atlas_ctor 3 32)
     \<lparr>index = 4, slot = 5, bounds = \<lparr>ivec4_x = 0, ivec4_y = 0, ivec4_z = 0, ivec4_w = 0\<rparr>,
      normalizedBounds = vec4_value_init, computedBounds = vec4_value_init\<rparr>
     = Inl AssertionFailed"
  using
    Free_contract [of "Atlas_ctor 3 32"
      "\<lparr>index = 3, slot = 5, bounds = \<lparr>ivec4_x = 0, ivec4_y = 0, ivec4_z = 0, ivec4_w = 0\<rparr>,
        normalizedBounds = vec4_value_init, computedBounds = vec4_value_init\<rparr>"]
    Free_contract [of "Atlas_ctor 3 32"
      "\<lparr>index = 4, slot = 5, bounds = \<lparr>ivec4_x = 0, ivec4_y = 0, ivec4_z = 0, ivec4_w = 0\<rparr>,
        normalizedBounds = vec4_value_init, computedBounds = vec4_value_init\<rparr>"]
  by (simp add: Atlas_ctor_def GetFreeSlots_def)

lemma Free_Inr: "Free a info = Inr a' \<longleftrightarrow>
   m_index a = index info \<and> a' = a\<lparr>m_freeSlots := m_freeSlots a @ [slot info]\<rparr>"
  by (auto simp: Free_def)

section \<open>Free followed by Allocate\<close>

text \<open>
  C6, amended. The free slots behave as a stack: on every atlas whose grid has at least
  one column, right after \<open>Free (info)\<close> has returned, the next \<open>Allocate\<close> returns an
  info whose slot is \<open>info.slot\<close>, and the free slots are again what they were before
  the \<open>Free\<close>.
\<close>

theorem Free_then_Allocate_reuses_slot:
  assumes "m_cols a \<noteq> 0" and "Free a info = Inr a'"
  shows "\<exists>info' a''. Allocate a' actualWidth actualHeight = Inr (info', a'')
           \<and> slot info' = slot info \<and> m_freeSlots a'' = m_freeSlots a"
proof -
  from assms(2) have a': "a' = a\<lparr>m_freeSlots := m_freeSlots a @ [slot info]\<rparr>"
    by (simp add: Free_Inr)
  then have "m_freeSlots a' \<noteq> []" "m_cols a' \<noteq> 0"
    using assms(1) by simp_all
  from Allocate_slot [OF this, of actualWidth actualHeight] show ?thesis
    by (auto simp: a')
qed

theorem Free_then_Allocate_reuses_slot_witness:
  "Free \<lparr>m_index = 1, m_imageSize = 32, m_atlasWidth = 64, m_atlasHeight = 64,
          m_freeSlots = [0, 3], m_cols = 2, m_rows = 2\<rparr>
        \<lparr>index = 1, slot = 1,
         bounds = \<lparr>ivec4_x = 32, ivec4_y = 0, ivec4_z = 52, ivec4_w = 10\<rparr>,
         normalizedBounds = \<lparr>vec4_x = Finite (1 / 2), vec4_y = Finite 0,
                             vec4_z = Finite (13 / 16), vec4_w = Finite (5 / 32)\<rparr>,
         computedBounds = vec4_value_init\<rparr>
     = Inr \<lparr>m_index = 1, m_imageSize = 32, m_atlasWidth = 64, m_atlasHeight = 64,
            m_freeSlots = [0, 3, 1], m_cols = 2, m_rows = 2\<rparr>
   \<and> (\<exists>info' a''.
         Allocate \<lparr>m_index = 1, m_imageSize = 32, m_atlasWidth = 64, m_atlasHeight = 64,
                   m_freeSlots = [0, 3, 1], m_cols = 2, m_rows = 2\<rparr> 7 9 = Inr (info', a'')
         \<and> slot info' = 1 \<and> m_freeSlots a'' = [0, 3])"
  using Free_then_Allocate_reuses_slot
    [of "\<lparr>m_index = 1, m_imageSize = 32, m_atlasWidth = 64, m_atlasHeight = 64,
          m_freeSlots = [0, 3], m_cols = 2, m_rows = 2\<rparr>"
        "\<lparr>index = 1, slot = 1,
         bounds = \<lparr>ivec4_x = 32, ivec4_y = 0, ivec4_z = 52, ivec4_w = 10\<rparr>,
         normalizedBounds = \<lparr>vec4_x = Finite (1 / 2), vec4_y = Finite 0,
                             vec4_z = Finite (13 / 16), vec4_w = Finite (5 / 32)\<rparr>,
         computedBounds = vec4_value_init\<rparr>"
        "\<lparr>m_index = 1, m_imageSize = 32, m_atlasWidth = 64, m_atlasHeight = 64,
            m_freeSlots = [0, 3, 1], m_cols = 2, m_rows = 2\<rparr>" 7 9]
  by (simp add: Free_def)

text \<open>
  C6, as stated, speaks of every atlas. On an atlas that was constructed and never
  initialised, \<open>_cols\<close> is zero: \<open>Free\<close> of an info with the atlas's index returns, and
  the next \<open>Allocate\<close> divides by zero instead of returning the slot.
\<close>

theorem Free_then_Allocate_without_grid:
  "Free (Atlas_ctor 0 32)
        \<lparr>index = 0, slot = 5,
         bounds = \<lparr>ivec4_x = 0, ivec4_y = 0, ivec4_z = 0, ivec4_w = 0\<rparr>,
         normalizedBounds = vec4_value_init, computedBounds = vec4_value_init\<rparr>
     = Inr \<lparr>m_index = 0, m_imageSize = 32, m_atlasWidth = 0, m_atlasHeight = 0,
            m_freeSlots = [5], m_cols = 0, m_rows = 0\<rparr>
   \<and> Allocate \<lparr>m_index = 0, m_imageSize = 32, m_atlasWidth = 0, m_atlasHeight = 0,
               m_freeSlots = [5], m_cols = 0, m_rows = 0\<rparr> 10 10 = Inl DivisionByZero"
  by (simp add: Free_def Atlas_ctor_def Allocate_div_by_zero)

lemma Allocate_Inr_D:
  assumes "Allocate a w h = Inr (info, a')"
  shows "m_freeSlots a \<noteq> []" "m_cols a \<noteq> 0" "slot info = last (m_freeSlots a)"
    "index info = m_index a" "a' = a\<lparr>m_freeSlots := butlast (m_freeSlots a)\<rparr>"
  using assms
  by (auto simp: Allocate_def GetSlotCoordinates_def Let_def split: if_splits)

text \<open>
  C10. \<open>Free\<close> does not check that the slot is live. After \<open>Allocate\<close> has returned
  \<open>info\<close>, \<open>Free (info)\<close> can be called twice: both calls return, the free slots then
  end with the slot id twice, \<open>GetFreeSlots\<close> has grown by two, and the next two
  \<open>Allocate\<close> calls both return that slot id.
\<close>

theorem Free_twice_duplicates_slot:
  assumes "Allocate a w h = Inr (info, a2)"
  shows "\<exists>a3 a4 info1 a5 info2 a6.
           Free a2 info = Inr a3 \<and> Free a3 info = Inr a4
           \<and> m_freeSlots a4 = m_freeSlots a2 @ [slot info, slot info]
           \<and> GetFreeSlots a4 = GetFreeSlots a2 + 2
           \<and> Allocate a4 w1 h1 = Inr (info1, a5)
           \<and> Allocate a5 w2 h2 = Inr (info2, a6)
           \<and> slot info1 = slot info \<and> slot info2 = slot info"
proof -
  note d = Allocate_Inr_D [OF assms]
  let ?a3 = "a2\<lparr>m_freeSlots := m_freeSlots a2 @ [slot info]\<rparr>"
  let ?a4 = "a2\<lparr>m_freeSlots := m_freeSlots a2 @ [slot info, slot info]\<rparr>"
  have i: "m_index a2 = index info" and c: "m_cols a2 \<noteq> 0"
    using d by simp_all
  have f1: "Free a2 info = Inr ?a3" using i by (simp add: Free_def)
  have f2: "Free ?a3 info = Inr ?a4" using i by (simp add: Free_def)
  have g: "GetFreeSlots ?a4 = GetFreeSlots a2 + 2" by (simp add: GetFreeSlots_def)
  have "m_freeSlots ?a4 \<noteq> []" "m_cols ?a4 \<noteq> 0" using c by simp_all
  from Allocate_slot [OF this, of w1 h1]
  obtain info1 where al1: "Allocate ?a4 w1 h1 = Inr (info1, ?a3)" and s1: "slot info1 = slot info"
    by (auto simp: butlast_append)
  have "m_freeSlots ?a3 \<noteq> []" "m_cols ?a3 \<noteq> 0" using c by simp_all
  from Allocate_slot [OF this, of w2 h2]
  obtain info2 where al2: "Allocate ?a3 w2 h2 = Inr (info2, a2)" and s2: "slot info2 = slot info"
    by auto
  from f1 f2 g al1 al2 s1 s2 show ?thesis
    by (intro exI [of _ ?a3] exI [of _ ?a4] exI [of _ info1] exI [of _ info2] exI [of _ a2])
      simp
qed

lemma Allocate_example:
  "Allocate \<lparr>m_index = 1, m_imageSize = 32, m_atlasWidth = 64, m_atlasHeight = 64,
             m_freeSlots = [0, 1, 2, 3], m_cols = 2, m_rows = 2\<rparr> 20 10 =
     Inr (\<lparr>index = 1, slot = 3,
           bounds = \<lparr>ivec4_x = 32, ivec4_y = 32, ivec4_z = 52, ivec4_w = 42\<rparr>,
           normalizedBounds = \<lparr>vec4_x = Finite (1 / 2), vec4_y = Finite (1 / 2),
                               vec4_z = Finite (13 / 16), vec4_w = Finite (21 / 32)\<rparr>,
           computedBounds = vec4_value_init\<rparr>,
          \<lparr>m_index = 1, m_imageSize = 32, m_atlasWidth = 64, m_atlasHeight = 64,
             m_freeSlots = [0, 1, 2], m_cols = 2, m_rows = 2\<rparr>)"
  by (simp add: Allocate_eq float_eval)

theorem Free_twice_duplicates_slot_witness:
  "\<exists>a3 a4 info1 a5 info2 a6.
     Free \<lparr>m_index = 1, m_imageSize = 32, m_atlasWidth = 64, m_atlasHeight = 64,
            m_freeSlots = [0, 1, 2], m_cols = 2, m_rows = 2\<rparr>
          \<lparr>index = 1, slot = 3,
           bounds = \<lparr>ivec4_x = 32, ivec4_y = 32, ivec4_z = 52, ivec4_w = 42\<rparr>,
           normalizedBounds = \<lparr>vec4_x = Finite (1 / 2), vec4_y = Finite (1 / 2),
                               vec4_z = Finite (13 / 16), vec4_w = Finite (21 / 32)\<rparr>,
           computedBounds = vec4_value_init\<rparr> = Inr a3
     \<and> Free a3
          \<lparr>index = 1, slot = 3,
           bounds = \<lparr>ivec4_x = 32, ivec4_y = 32, ivec4_z = 52, ivec4_w = 42\<rparr>,
           normalizedBounds = \<lparr>vec4_x = Finite (1 / 2), vec4_y = Finite (1 / 2),
                               vec4_z = Finite (13 / 16), vec4_w = Finite (21 / 32)\<rparr>,
           computedBounds = vec4_value_init\<rparr> = Inr a4
     \<and> m_freeSlots a4 = [0, 1, 2, 3, 3]
     \<and> GetFreeSlots a4 = 5
     \<and> Allocate a4 5 6 = Inr (info1, a5)
     \<and> Allocate a5 7 8 = Inr (info2, a6)
     \<and> slot info1 = 3 \<and> slot info2 = 3"
  using Free_twice_duplicates_slot [OF Allocate_example, of 5 6 7 8]
  by (simp add: GetFreeSlots_def)

section \<open>Sequences of Allocate and Free\<close>

lemma distinct_slot_ids:
  assumes "n \<le> 2 ^ 32"
  shows "distinct (map (word_of_nat :: nat \<Rightarrow> GLuint) [0..<n])"
proof -
  have "inj_on (word_of_nat :: nat \<Rightarrow> GLuint) {0..<n}"
  proof (rule inj_onI)
    fix x y assume "x \<in> {0..<n}" "y \<in> {0..<n}"
      and e: "(word_of_nat x :: GLuint) = word_of_nat y"
    then have "x < 2 ^ LENGTH(32)" "y < 2 ^ LENGTH(32)" using assms by simp_all
    then have "take_bit LENGTH(32) x = x" "take_bit LENGTH(32) y = y"
      by (simp_all only: take_bit_nat_eq_self)
    with e show "x = y" by (simp only: word_of_nat_eq_iff)
  qed
  then show ?thesis by (simp add: distinct_map)
qed

lemma distinct_freeSlots_Initialise:
  assumes "Initialise a0 w h = Inr a1"
  shows "distinct (m_freeSlots a1)"
proof -
  let ?n = "unat (sint32_div w (m_imageSize a0) * sint32_div h (m_imageSize a0))"
  have "?n < 2 ^ LENGTH(32)" by (rule unsigned_less)
  then have "?n \<le> 2 ^ 32" by simp
  then have "distinct (map (word_of_nat :: nat \<Rightarrow> GLuint) [0..<?n])"
    by (rule distinct_slot_ids)
  with assms show ?thesis by (simp add: Initialise_Inr)
qed

lemma client_inv_new:
  assumes "Initialise a0 w h = Inr a1"
  shows "client_inv a1 (new_client a1)"
  using distinct_freeSlots_Initialise [OF assms]
  by (simp add: client_inv_def new_client_def)

lemma inv_cols_nonzero:
  assumes "Initialise a0 w h = Inr a1" "client_inv a1 c" "m_freeSlots (atlas c) \<noteq> []"
  shows "m_cols (atlas c) \<noteq> 0"
proof -
  from assms(2) have "set (m_freeSlots (atlas c)) \<subseteq> set (m_freeSlots a1)"
    and cols: "m_cols (atlas c) = m_cols a1"
    by (auto simp: client_inv_def)
  with assms(3) have "m_freeSlots a1 \<noteq> []" by auto
  from Initialise_nonempty_grid(1) [OF assms(1) this] cols show ?thesis by simp
qed

lemma remove1_map_distinct:
  assumes "distinct (map f xs)" "x \<in> set xs"
  shows "f ` set (remove1 x xs) = f ` set xs - {f x}"
proof -
  from assms(1) have d: "distinct xs" and i: "inj_on f (set xs)"
    by (simp_all add: distinct_map)
  from d have "set (remove1 x xs) = set xs - {x}" by simp
  then show ?thesis using i assms(2) by (auto dest: inj_onD)
qed

lemma distinct_map_remove1:
  assumes "distinct (map f xs)"
  shows "distinct (map f (remove1 x xs))"
proof -
  from assms have "distinct xs" "inj_on f (set xs)" by (simp_all add: distinct_map)
  moreover have "set (remove1 x xs) \<subseteq> set xs" by (rule set_remove1_subset)
  ultimately show ?thesis
    by (auto simp: distinct_map intro: inj_on_subset)
qed

lemma perform_Allocate_inv:
  assumes init: "Initialise a0 aw ah = Inr a1"
    and inv: "client_inv a1 c"
    and perm: "permitted c (Call_Allocate w h)"
  shows "\<exists>c'. perform c (Call_Allocate w h) = Inr c' \<and> client_inv a1 c'"
proof -
  let ?fs = "m_freeSlots (atlas c)"
  from perm have ne: "?fs \<noteq> []" by simp
  have nz: "m_cols (atlas c) \<noteq> 0" by (rule inv_cols_nonzero [OF init inv ne])
  from Allocate_slot [OF ne nz, of w h] obtain info where
    al: "Allocate (atlas c) w h = Inr (info, (atlas c)\<lparr>m_freeSlots := butlast ?fs\<rparr>)"
    and sl: "slot info = last ?fs" and ix: "index info = m_index (atlas c)"
    by blast
  let ?c' = "c\<lparr>atlas := (atlas c)\<lparr>m_freeSlots := butlast ?fs\<rparr>, live := info # live c,
               allocated := slot info # allocated c\<rparr>"
  have p: "perform c (Call_Allocate w h) = Inr ?c'" by (simp add: al)
  have fs: "?fs = butlast ?fs @ [slot info]" using ne sl by simp
  from inv have d: "distinct (?fs @ map slot (live c))"
    and u: "set ?fs \<union> slot ` set (live c) = set (m_freeSlots a1)"
    and rest: "m_cols (atlas c) = m_cols a1" "m_index (atlas c) = m_index a1"
      "index ` set (live c) \<subseteq> {m_index a1}" "slot ` set (live c) \<subseteq> set (allocated c)"
      "set (allocated c) \<subseteq> slot ` set (live c) \<union> set (freed c)"
    by (simp_all add: client_inv_def)
  from d have d': "distinct ((butlast ?fs @ [slot info]) @ map slot (live c))"
    using fs by simp
  then have d'': "distinct (butlast ?fs @ map slot (info # live c))" by auto
  have "set ?fs = set (butlast ?fs) \<union> {slot info}"
    by (subst fs) simp
  with u have u': "set (butlast ?fs) \<union> slot ` set (info # live c) = set (m_freeSlots a1)"
    by auto
  have "client_inv a1 ?c'"
    unfolding client_inv_def using d'' u' rest ix by auto
  with p show ?thesis by blast
qed

lemma perform_Free_inv:
  assumes inv: "client_inv a1 c"
    and perm: "permitted c (Call_Free info)"
  shows "\<exists>c'. perform c (Call_Free info) = Inr c' \<and> client_inv a1 c'"
proof -
  let ?fs = "m_freeSlots (atlas c)"
  from perm have mem: "info \<in> set (live c)" by simp
  from inv have d: "distinct (?fs @ map slot (live c))"
    and u: "set ?fs \<union> slot ` set (live c) = set (m_freeSlots a1)"
    and cols: "m_cols (atlas c) = m_cols a1" and idx: "m_index (atlas c) = m_index a1"
    and li: "index ` set (live c) \<subseteq> {m_index a1}"
    and la: "slot ` set (live c) \<subseteq> set (allocated c)"
    and af: "set (allocated c) \<subseteq> slot ` set (live c) \<union> set (freed c)"
    by (simp_all add: client_inv_def)
  from li mem idx have ix: "m_index (atlas c) = index info" by auto
  let ?c' = "c\<lparr>atlas := (atlas c)\<lparr>m_freeSlots := ?fs @ [slot info]\<rparr>,
               live := remove1 info (live c), freed := slot info # freed c\<rparr>"
  have p: "perform c (Call_Free info) = Inr ?c'" using ix by (simp add: Free_def)
  from d have dl: "distinct (map slot (live c))" and dfs: "distinct ?fs"
    and dj: "set ?fs \<inter> slot ` set (live c) = {}" by auto
  have rs: "slot ` set (remove1 info (live c)) = slot ` set (live c) - {slot info}"
    by (rule remove1_map_distinct [OF dl mem])
  have dr: "distinct (map slot (remove1 info (live c)))"
    by (rule distinct_map_remove1 [OF dl])
  have sin: "slot info \<in> slot ` set (live c)" using mem by simp
  have d': "distinct ((?fs @ [slot info]) @ map slot (remove1 info (live c)))"
    using dfs dr dj rs sin by auto
  have u': "set (?fs @ [slot info]) \<union> slot ` set (remove1 info (live c)) = set (m_freeSlots a1)"
    using u rs sin by auto
  have li': "index ` set (remove1 info (live c)) \<subseteq> {m_index a1}"
    using li set_remove1_subset [of info "live c"] by blast
  have la': "slot ` set (remove1 info (live c)) \<subseteq> set (allocated c)"
    using la rs by auto
  have af': "set (allocated c) \<subseteq> slot ` set (remove1 info (live c)) \<union> set (slot info # freed c)"
    using af rs by auto
  have "client_inv a1 ?c'"
    unfolding client_inv_def using d' u' li' la' af' cols idx by simp
  with p show ?thesis by blast
qed

lemma perform_inv:
  assumes "Initialise a0 aw ah = Inr a1" "client_inv a1 c" "permitted c x"
  shows "\<exists>c'. perform c x = Inr c' \<and> client_inv a1 c'"
proof (cases x)
  case (Call_Allocate w h)
  with assms show ?thesis using perform_Allocate_inv by blast
next
  case (Call_Free info)
  with assms show ?thesis using perform_Free_inv by blast
qed

lemma run_inv:
  assumes "Initialise a0 aw ah = Inr a1"
  shows "client_inv a1 c \<Longrightarrow> run c xs = Some r \<Longrightarrow> \<exists>c'. r = Inr c' \<and> client_inv a1 c'"
proof (induction xs arbitrary: c)
  case Nil
  then show ?case by auto
next
  case (Cons x xs)
  from Cons.prems(2) have perm: "permitted c x"
    by (auto split: if_splits)
  from perform_inv [OF assms Cons.prems(1) perm] obtain c1
    where p: "perform c x = Inr c1" and i: "client_inv a1 c1" by blast
  from Cons.prems(2) perm p have "run c1 xs = Some r" by simp
  from Cons.IH [OF i this] show ?case .
qed

text \<open>
  C3. Take an atlas that \<open>Initialise\<close> has set up, and any finite sequence of calls in
  which \<open>Allocate\<close> is called only while a slot is free and \<open>Free\<close> only on an info
  that is live. Then no call fails, no two live infos hold the same slot id, and
  whatever \<open>Allocate\<close> returns next is a slot id of the atlas that no live info holds
  and that either was never allocated or has been freed before.
\<close>

theorem live_slots_never_shared:
  assumes "Initialise a0 atlasWidth atlasHeight = Inr a1"
    and "run (new_client a1) calls = Some r"
  shows "\<exists>c. r = Inr c
      \<and> distinct (map slot (live c))
      \<and> (\<forall>w h info a'. Allocate (atlas c) w h = Inr (info, a') \<longrightarrow>
            slot info \<in> set (m_freeSlots a1)
            \<and> slot info \<notin> slot ` set (live c)
            \<and> (slot info \<notin> set (allocated c) \<or> slot info \<in> set (freed c)))"
proof -
  from run_inv [OF assms(1) client_inv_new [OF assms(1)] assms(2)]
  obtain c where r: "r = Inr c" and inv: "client_inv a1 c" by blast
  from inv have d: "distinct (m_freeSlots (atlas c) @ map slot (live c))"
    and u: "set (m_freeSlots (atlas c)) \<union> slot ` set (live c) = set (m_freeSlots a1)"
    and af: "set (allocated c) \<subseteq> slot ` set (live c) \<union> set (freed c)"
    by (simp_all add: client_inv_def)
  have m: "slot info \<in> set (m_freeSlots a1)
        \<and> slot info \<notin> slot ` set (live c)
        \<and> (slot info \<notin> set (allocated c) \<or> slot info \<in> set (freed c))"
    if al: "Allocate (atlas c) w h = Inr (info, a')" for w h info a'
  proof -
    from Allocate_Inr_D [OF al] have "slot info \<in> set (m_freeSlots (atlas c))"
      by simp
    with d u af show ?thesis by auto
  qed
  have dl: "distinct (map slot (live c))" using d by simp
  from r dl m show ?thesis by blast
qed

theorem live_slots_never_shared_witness:
  "run (new_client \<lparr>m_index = 1, m_imageSize = 32, m_atlasWidth = 64, m_atlasHeight = 64,
          m_freeSlots = [0, 1, 2, 3], m_cols = 2, m_rows = 2\<rparr>)
     [Call_Allocate 20 10, Call_Allocate 5 6,
      Call_Free \<lparr>index = 1, slot = 3,
           bounds = \<lparr>ivec4_x = 32, ivec4_y = 32, ivec4_z = 52, ivec4_w = 42\<rparr>,
           normalizedBounds = \<lparr>vec4_x = Finite (1 / 2), vec4_y = Finite (1 / 2),
                               vec4_z = Finite (13 / 16), vec4_w = Finite (21 / 32)\<rparr>,
           computedBounds = vec4_value_init\<rparr>,
      Call_Allocate 7 8]
   = Some (Inr \<lparr>atlas = \<lparr>m_index = 1, m_imageSize = 32, m_atlasWidth = 64,
                          m_atlasHeight = 64, m_freeSlots = [0, 1], m_cols = 2, m_rows = 2\<rparr>,
                 live =
                   [\<lparr>index = 1, slot = 3,
                     bounds = \<lparr>ivec4_x = 32, ivec4_y = 32, ivec4_z = 39, ivec4_w = 40\<rparr>,
                     normalizedBounds = \<lparr>vec4_x = Finite (1 / 2), vec4_y = Finite (1 / 2),
                                         vec4_z = Finite (39 / 64), vec4_w = Finite (5 / 8)\<rparr>,
                     computedBounds = vec4_value_init\<rparr>,
                    \<lparr>index = 1, slot = 2,
                     bounds = \<lparr>ivec4_x = 0, ivec4_y = 32, ivec4_z = 5, ivec4_w = 38\<rparr>,
                     normalizedBounds = \<lparr>vec4_x = Finite 0, vec4_y = Finite (1 / 2),
                                         vec4_z = Finite (5 / 64), vec4_w = Finite (19 / 32)\<rparr>,
                     computedBounds = vec4_value_init\<rparr>],
                 allocated = [3, 2, 3], freed = [3]\<rparr>)
   \<and> (\<exists>info a'.
         Allocate \<lparr>m_index = 1, m_imageSize = 32, m_atlasWidth = 64,
                   m_atlasHeight = 64, m_freeSlots = [0, 1], m_cols = 2, m_rows = 2\<rparr> 9 9
           = Inr (info, a')
         \<and> slot info = 1 \<and> slot info \<notin> {3, 2})"
proof -
  let ?A = "\<lparr>m_index = 1, m_imageSize = 32, m_atlasWidth = 64, m_atlasHeight = 64,
          m_freeSlots = [0, 1, 2, 3], m_cols = 2, m_rows = 2\<rparr>"
  let ?I = "\<lparr>index = 1, slot = 3,
           bounds = \<lparr>ivec4_x = 32, ivec4_y = 32, ivec4_z = 52, ivec4_w = 42\<rparr>,
           normalizedBounds = \<lparr>vec4_x = Finite (1 / 2), vec4_y = Finite (1 / 2),
                               vec4_z = Finite (13 / 16), vec4_w = Finite (21 / 32)\<rparr>,
           computedBounds = vec4_value_init\<rparr>"
  let ?C = "\<lparr>atlas = \<lparr>m_index = 1, m_imageSize = 32, m_atlasWidth = 64,
                          m_atlasHeight = 64, m_freeSlots = [0, 1], m_cols = 2, m_rows = 2\<rparr>,
                 live =
                   [\<lparr>index = 1, slot = 3,
                     bounds = \<lparr>ivec4_x = 32, ivec4_y = 32, ivec4_z = 39, ivec4_w = 40\<rparr>,
                     normalizedBounds = \<lparr>vec4_x = Finite (1 / 2), vec4_y = Finite (1 / 2),
                                         vec4_z = Finite (39 / 64), vec4_w = Finite (5 / 8)\<rparr>,
                     computedBounds = vec4_value_init\<rparr>,
                    \<lparr>index = 1, slot = 2,
                     bounds = \<lparr>ivec4_x = 0, ivec4_y = 32, ivec4_z = 5, ivec4_w = 38\<rparr>,
                     normalizedBounds = \<lparr>vec4_x = Finite 0, vec4_y = Finite (1 / 2),
                                         vec4_z = Finite (5 / 64), vec4_w = Finite (19 / 32)\<rparr>,
                     computedBounds = vec4_value_init\<rparr>],
                 allocated = [3, 2, 3], freed = [3]\<rparr>"
  have r: "run (new_client ?A) [Call_Allocate 20 10, Call_Allocate 5 6, Call_Free ?I,
      Call_Allocate 7 8] = Some (Inr ?C)"
    by (simp add: new_client_def Allocate_eq float_eval Free_def)
  have al: "\<exists>info a'. Allocate (atlas ?C) 9 9 = Inr (info, a') \<and> slot info = 1"
    by (simp add: Allocate_eq)
  from live_slots_never_shared [OF Initialise_64_64 [of 1] r] al r
  show ?thesis by auto
qed

section \<open>The order of an image\<close>

lemma log2_succ_gap:
  fixes m :: nat
  assumes "1 \<le> m"
  shows "log 2 (real m) + 1 / real m \<le> log 2 (real m + 1)"
proof -
  have m0: "0 < real m" using assms by simp
  have "0 \<le> 1 / real m" by simp
  then have "- 1 \<le> 1 / real m" by linarith
  then have "1 + real m * (1 / real m) \<le> (1 + 1 / real m) ^ m"
    by (rule Bernoulli_inequality)
  then have two: "2 \<le> (1 + 1 / real m) ^ m" using m0 by simp
  have pos: "0 < 1 + 1 / real m" using m0 by (simp add: add_pos_pos)
  have "log 2 2 \<le> log 2 ((1 + 1 / real m) ^ m)"
    using two by (subst log_le_cancel_iff) (use pos in simp_all)
  then have "1 \<le> real m * log 2 (1 + 1 / real m)"
    using pos by (simp add: log_nat_power)
  then have g: "1 / real m \<le> log 2 (1 + 1 / real m)"
    using m0 by (simp add: field_simps)
  have "real m + 1 = real m * (1 + 1 / real m)" using m0 by (simp add: field_simps)
  then have "log 2 (real m + 1) = log 2 (real m) + log 2 (1 + 1 / real m)"
    using m0 pos by (simp only: log_mult_pos)
  with g show ?thesis by simp
qed

lemma log2_between_powers:
  fixes n k :: nat
  assumes lo: "2 ^ k < n" and hi: "n < 2 ^ (k + 1)" and k: "k \<le> 10"
  shows "real k + 1 / 1024 \<le> log 2 (real n)" and "log 2 (real n) \<le> real k + 1 - 1 / 2048"
proof -
  have p1: "(2::nat) ^ k \<le> 1024"
    using power_increasing [of k 10 "2::nat"] k by simp
  have pk: "1 \<le> (2::nat) ^ k" by simp
  have "real k + 1 / 1024 \<le> log 2 (real ((2::nat) ^ k)) + 1 / real ((2::nat) ^ k)"
  proof -
    have "log 2 (real ((2::nat) ^ k)) = real k" by (simp add: log_pow_cancel)
    moreover have "real ((2::nat) ^ k) \<le> 1024"
      using of_nat_mono [OF p1, where ?'a = real] by simp
    then have "1 / 1024 \<le> 1 / real ((2::nat) ^ k)"
      by (intro frac_le) simp_all
    ultimately show ?thesis by simp
  qed
  also have "\<dots> \<le> log 2 (real ((2::nat) ^ k) + 1)"
    by (rule log2_succ_gap [OF pk])
  also have "\<dots> \<le> log 2 (real n)"
  proof -
    have "2 ^ k + 1 \<le> n" using lo by simp
    then have "real (2 ^ k + 1) \<le> real n" by (simp only: of_nat_le_iff)
    then have "real ((2::nat) ^ k) + 1 \<le> real n" by (simp only: of_nat_add of_nat_1)
    moreover have "0 < real ((2::nat) ^ k) + 1" by (simp add: add_pos_pos)
    moreover have "0 < real n" using lo by (metis gr0I not_less0 of_nat_0_less_iff)
    ultimately show ?thesis
      by (subst log_le_cancel_iff) (simp_all del: of_nat_power)
  qed
  finally show "real k + 1 / 1024 \<le> log 2 (real n)" .
  have n1: "1 \<le> n" using lo by (meson less_le_trans not_less pk order_less_imp_le)
  have n2: "n < 2048"
  proof -
    have "(2::nat) ^ (k + 1) \<le> 2 ^ 11"
      using k by (intro power_increasing) simp_all
    with hi show ?thesis by simp
  qed
  have "real n \<le> 2048" "0 < real n" using n1 n2 by simp_all
  then have "1 / 2048 \<le> 1 / real n"
    by (intro frac_le) simp_all
  then have "log 2 (real n) + 1 / 2048 \<le> log 2 (real n) + 1 / real n"
    by simp
  also have "\<dots> \<le> log 2 (real n + 1)" by (rule log2_succ_gap [OF n1])
  also have "\<dots> \<le> log 2 (real ((2::nat) ^ (k + 1)))"
  proof -
    have "n + 1 \<le> 2 ^ (k + 1)" using hi by simp
    then have "real (n + 1) \<le> real ((2::nat) ^ (k + 1))" by (simp only: of_nat_le_iff)
    then have "real n + 1 \<le> real ((2::nat) ^ (k + 1))" by (simp only: of_nat_add of_nat_1)
    then show ?thesis
      using n1 by (subst log_le_cancel_iff) simp_all
  qed
  also have "\<dots> = real k + 1" by (simp add: log_pow_cancel del: power_Suc)
  finally show "log 2 (real n) \<le> real k + 1 - 1 / 2048" by simp
qed

lemma ceiling_log2f_eq:
  fixes N :: nat
  assumes f: "log2f_faithful lm" and lo: "32 \<le> N" and hi: "N \<le> 2048"
  shows "\<lceil>log2f lm (real N)\<rceil> = \<lceil>log 2 (real N)\<rceil>"
    and "5 \<le> \<lceil>log 2 (real N)\<rceil>" and "\<lceil>log 2 (real N)\<rceil> \<le> 11"
proof -
  from f have exact: "\<And>k::nat. k \<le> 11 \<Longrightarrow> log2f lm (2 ^ k) = real k"
    and near: "\<And>n::int. 32 \<le> n \<Longrightarrow> n \<le> 2048 \<Longrightarrow>
                 \<bar>log2f lm (real_of_int n) - log 2 (real_of_int n)\<bar> \<le> 1 / 4096"
    by (simp_all add: log2f_faithful_def)
  have "2 \<le> N" using lo by simp
  from ex_power_ivl2 [OF order_refl this] obtain k where k1: "2 ^ k < N" and k2: "N \<le> 2 ^ (k + 1)"
    by auto
  have lt: "(2::nat) ^ k < 2 ^ 11" using k1 hi by simp
  have "k < 11" by (rule power_less_imp_less_exp [OF _ lt]) simp
  then have k10: "k \<le> 10" by simp
  have le: "(2::nat) ^ 5 \<le> 2 ^ (k + 1)" using k2 lo by simp
  have "5 \<le> k + 1" by (rule power_le_imp_le_exp [OF _ le]) simp
  then have k4: "4 \<le> k" by simp
  have c: "\<lceil>log 2 (real N)\<rceil> = int k + 1"
    using ceiling_log_nat_eq_if [OF k1 k2 order_refl] by simp
  show "5 \<le> \<lceil>log 2 (real N)\<rceil>" "\<lceil>log 2 (real N)\<rceil> \<le> 11"
    using c k4 k10 by simp_all
  have "\<lceil>log2f lm (real N)\<rceil> = int k + 1"
  proof (cases "N = 2 ^ (k + 1)")
    case True
    then have "real N = 2 ^ (k + 1)" by (simp only: of_nat_power of_nat_numeral)
    moreover have "log2f lm (2 ^ (k + 1)) = real (k + 1)"
      using k10 by (intro exact) simp
    ultimately have "log2f lm (real N) = real_of_int (int k + 1)" by simp
    then show ?thesis by (simp only: ceiling_of_int)
  next
    case False
    with k2 have k3: "N < 2 ^ (k + 1)" by simp
    note b = log2_between_powers [OF k1 k3 k10]
    have "\<bar>log2f lm (real_of_int (int N)) - log 2 (real_of_int (int N))\<bar> \<le> 1 / 4096"
      using lo hi by (intro near) simp_all
    then have d: "\<bar>log2f lm (real N) - log 2 (real N)\<bar> \<le> 1 / 4096" by simp
    have "real k < log2f lm (real N)" using b(1) d by linarith
    then have "real_of_int (int k) < log2f lm (real N)" by simp
    moreover have "log2f lm (real N) \<le> real k + 1" using b(2) d by linarith
    then have "log2f lm (real N) \<le> real_of_int (int k) + 1" by simp
    ultimately show ?thesis by (rule ceiling_eq)
  qed
  with c show "\<lceil>log2f lm (real N)\<rceil> = \<lceil>log 2 (real N)\<rceil>" by simp
qed

lemma clamped_size:
  fixes w h :: sint32
  defines "actualSize \<equiv> (if w <s h then h else w)"
  shows "sint (if actualSize <s TEXTURE_CACHE_SMALLEST_SLOT
               then TEXTURE_CACHE_SMALLEST_SLOT else actualSize)
         = max (max (sint w) (sint h)) 32"
  unfolding actualSize_def TEXTURE_CACHE_SMALLEST_SLOT_def
  by (auto simp: word_sless_alt max_def)

lemma double_to_sint32_of_int:
  assumes "- (2 ^ 31) \<le> j" "j < 2 ^ 31"
  shows "double_to_sint32 (real_of_int j) = word_of_int j"
    and "sint (double_to_sint32 (real_of_int j)) = j"
proof -
  show e: "double_to_sint32 (real_of_int j) = word_of_int j"
    by (simp add: double_to_sint32_def)
  show "sint (double_to_sint32 (real_of_int j)) = j"
    by (simp only: e sint_word_of_int_small [OF assms])
qed

lemma CalculateImageSizeOrder_eq:
  assumes f: "log2f_faithful lm"
    and hi: "max (sint actualWidth) (sint actualHeight) \<le> 2048"
  shows "CalculateImageSizeOrder lm actualWidth actualHeight =
           word_of_int \<lceil>log 2 (real_of_int (max (max (sint actualWidth) (sint actualHeight)) 32))\<rceil>"
    and "sint (CalculateImageSizeOrder lm actualWidth actualHeight) =
           \<lceil>log 2 (real_of_int (max (max (sint actualWidth) (sint actualHeight)) 32))\<rceil>"
    and "5 \<le> sint (CalculateImageSizeOrder lm actualWidth actualHeight)"
    and "sint (CalculateImageSizeOrder lm actualWidth actualHeight) \<le> 11"
proof -
  let ?m = "max (max (sint actualWidth) (sint actualHeight)) 32"
  let ?j = "\<lceil>log 2 (real_of_int ?m)\<rceil>"
  have m: "32 \<le> ?m" "?m \<le> 2048" using hi by simp_all
  then have N: "32 \<le> nat ?m" "nat ?m \<le> 2048" by linarith+
  have r: "real (nat ?m) = real_of_int ?m" using m by simp
  note c = ceiling_log2f_eq [OF f N, unfolded r]
  have j: "- (2 ^ 31) \<le> ?j" "?j < 2 ^ 31" using c(2,3) by simp_all
  let ?c = "if (if actualWidth <s actualHeight then actualHeight else actualWidth)
                  <s TEXTURE_CACHE_SMALLEST_SLOT
            then TEXTURE_CACHE_SMALLEST_SLOT
            else (if actualWidth <s actualHeight then actualHeight else actualWidth)"
  have sc: "sint ?c = ?m" by (rule clamped_size)
  have "\<bar>?m\<bar> \<le> 2 ^ 24" using m by simp
  then have "\<bar>sint ?c\<bar> \<le> 2 ^ 24" by (simp only: sc)
  then have "float_of_sint32 ?c = ?m" by (simp only: float_of_sint32_small sc)
  then have "CalculateImageSizeOrder lm actualWidth actualHeight
          = double_to_sint32 (real_of_int \<lceil>log2f lm (real_of_int ?m)\<rceil>)"
    unfolding CalculateImageSizeOrder_def Let_def by (rule arg_cong)
  then have e: "CalculateImageSizeOrder lm actualWidth actualHeight
          = double_to_sint32 (real_of_int ?j)"
    by (simp only: c(1))
  show "CalculateImageSizeOrder lm actualWidth actualHeight = word_of_int ?j"
    by (simp only: e double_to_sint32_of_int(1) [OF j])
  show s: "sint (CalculateImageSizeOrder lm actualWidth actualHeight) = ?j"
    by (simp only: e double_to_sint32_of_int(2) [OF j])
  show "5 \<le> sint (CalculateImageSizeOrder lm actualWidth actualHeight)"
    "sint (CalculateImageSizeOrder lm actualWidth actualHeight) \<le> 11"
    using c(2,3) by (simp_all only: s)
qed

lemma log2f_faithful_exact_libm: "log2f_faithful exact_libm"
  by (simp add: log2f_faithful_def exact_libm_def log_pow_cancel)

lemma log2_exact_libm: "log2_exact_on_powers exact_libm"
  by (simp add: log2_exact_on_powers_def exact_libm_def log_pow_cancel)

text \<open>
  C2. \<open>CalculateImageSizeOrder\<close> takes the two sizes and no atlas. With a \<open>log2f\<close>
  that is faithful in the sense of \<open>log2f_faithful\<close>, for every width and height
  whose maximum is between 1 and 2048 it returns the ceiling of the binary logarithm of
  \<open>max (width, height, 32)\<close>.
\<close>

theorem CalculateImageSizeOrder_is_ceil_log2:
  assumes "log2f_faithful lm"
    and "1 \<le> max (sint actualWidth) (sint actualHeight)"
    and "max (sint actualWidth) (sint actualHeight) \<le> 2048"
  shows "sint (CalculateImageSizeOrder lm actualWidth actualHeight) =
           \<lceil>log 2 (real_of_int (max (max (sint actualWidth) (sint actualHeight)) 32))\<rceil>
         \<and> CalculateImageSizeOrder lm actualWidth actualHeight =
           word_of_int \<lceil>log 2 (real_of_int (max (max (sint actualWidth) (sint actualHeight)) 32))\<rceil>"
  using CalculateImageSizeOrder_eq(1,2) [OF assms(1,3)] by simp

lemma ceiling_log2_33: "\<lceil>log 2 33\<rceil> = 6"
  using ceiling_log_nat_eq_if [of 2 5 33] by simp

lemma ceiling_log2_32: "\<lceil>log 2 32\<rceil> = 5"
  using ceiling_log_nat_eq_if [of 2 4 32] by simp

theorem CalculateImageSizeOrder_is_ceil_log2_witness:
  "log2f_faithful exact_libm
   \<and> sint (CalculateImageSizeOrder exact_libm 33 20) = 6
   \<and> CalculateImageSizeOrder exact_libm 33 20 = 6
   \<and> sint (CalculateImageSizeOrder exact_libm 10 10) = 5"
  using CalculateImageSizeOrder_is_ceil_log2 [OF log2f_faithful_exact_libm, of 33 20]
    CalculateImageSizeOrder_is_ceil_log2 [OF log2f_faithful_exact_libm, of 10 10]
  by (simp add: log2f_faithful_exact_libm ceiling_log2_33 ceiling_log2_32)

section \<open>Suitability of an atlas for an image\<close>

lemma IsImageSuitable_positive:
  assumes "0 <s m_imageSize a"
  shows "IsImageSuitable lm a w h =
           Inr (CalculateImageSizeOrder lm w h =
                  double_to_sint32 (log2 lm (real_of_int (sint (m_imageSize a)))))"
proof -
  from assms have "\<not> m_imageSize a \<le>s 0"
    by (simp add: word_sless_alt word_sle_eq)
  then show ?thesis by (simp add: IsImageSuitable_def Let_def)
qed

lemma IsImageSuitable_power2:
  assumes e: "log2_exact_on_powers lm" and k: "k < 31" and s: "m_imageSize a = 2 ^ k"
  shows "IsImageSuitable lm a w h = Inr (CalculateImageSizeOrder lm w h = word_of_nat k)"
proof -
  have sk: "sint (m_imageSize a) = 2 ^ k" by (simp only: s sint_power2 [OF k])
  then have pos: "0 <s m_imageSize a" by (simp add: word_sless_alt)
  have "log2 lm (real_of_int (sint (m_imageSize a))) = real k"
    using e k by (simp add: sk log2_exact_on_powers_def)
  moreover have "double_to_sint32 (real k) = word_of_nat k"
    by (simp add: double_to_sint32_def)
  ultimately show ?thesis
    by (simp only: IsImageSuitable_positive [OF pos])
qed

lemma CalculateImageSizeOrder_10_32:
  "CalculateImageSizeOrder lm 10 10 = CalculateImageSizeOrder lm 32 32"
  by (simp add: CalculateImageSizeOrder_def TEXTURE_CACHE_SMALLEST_SLOT_def word_sless_alt)

lemma IsImageSuitable_10_32: "IsImageSuitable lm a 10 10 = IsImageSuitable lm a 32 32"
  by (simp only: IsImageSuitable_def CalculateImageSizeOrder_10_32)

lemma CalculateImageSizeOrder_32:
  assumes "log2f_faithful lm"
  shows "CalculateImageSizeOrder lm 32 32 = 5"
  using CalculateImageSizeOrder_eq(1) [OF assms, of 32 32]
  by (simp add: ceiling_log2_32)

text \<open>
  C4. \<open>IsImageSuitable\<close> answers whether the order of the image is the order of the
  atlas, which the code computes as \<open>(sint32) log2 (_imageSize)\<close>; on an atlas whose
  slots are \<open>2 ^ k\<close> pixels wide that order is \<open>k\<close>, and an image of any other order,
  smaller ones included, is not suitable. Images of 10 by 10 and of 32 by 32 pixels get
  the same answer from every atlas, and both have order 5.
\<close>

theorem IsImageSuitable_iff_same_order:
  "(0 <s m_imageSize a \<longrightarrow>
      IsImageSuitable lm a w h =
        Inr (CalculateImageSizeOrder lm w h =
               double_to_sint32 (log2 lm (real_of_int (sint (m_imageSize a))))))
   \<and> (log2_exact_on_powers lm \<and> k < 31 \<and> m_imageSize a = 2 ^ k \<longrightarrow>
        IsImageSuitable lm a w h = Inr (CalculateImageSizeOrder lm w h = word_of_nat k))
   \<and> IsImageSuitable lm a 10 10 = IsImageSuitable lm a 32 32
   \<and> (log2f_faithful lm \<longrightarrow>
        CalculateImageSizeOrder lm 10 10 = 5 \<and> CalculateImageSizeOrder lm 32 32 = 5)"
proof (intro conjI impI)
  assume "0 <s m_imageSize a"
  then show "IsImageSuitable lm a w h =
        Inr (CalculateImageSizeOrder lm w h =
               double_to_sint32 (log2 lm (real_of_int (sint (m_imageSize a)))))"
    by (rule IsImageSuitable_positive)
next
  assume "log2_exact_on_powers lm \<and> k < 31 \<and> m_imageSize a = 2 ^ k"
  then show "IsImageSuitable lm a w h = Inr (CalculateImageSizeOrder lm w h = word_of_nat k)"
    using IsImageSuitable_power2 by blast
next
  show "IsImageSuitable lm a 10 10 = IsImageSuitable lm a 32 32"
    by (rule IsImageSuitable_10_32)
next
  assume f: "log2f_faithful lm"
  show "CalculateImageSizeOrder lm 32 32 = 5" by (rule CalculateImageSizeOrder_32 [OF f])
  then show "CalculateImageSizeOrder lm 10 10 = 5" by (simp only: CalculateImageSizeOrder_10_32)
qed

theorem IsImageSuitable_iff_same_order_witness:
  "IsImageSuitable exact_libm (Atlas_ctor 0 32) 10 10 = Inr True
   \<and> IsImageSuitable exact_libm (Atlas_ctor 0 32) 32 32 = Inr True
   \<and> IsImageSuitable exact_libm (Atlas_ctor 1 64) 10 10 = Inr False
   \<and> IsImageSuitable exact_libm (Atlas_ctor 1 64) 32 32 = Inr False
   \<and> CalculateImageSizeOrder exact_libm 10 10 = 5
   \<and> CalculateImageSizeOrder exact_libm 32 32 = 5"
proof -
  have p5: "m_imageSize (Atlas_ctor 0 32) = 2 ^ 5" and p6: "m_imageSize (Atlas_ctor 1 64) = 2 ^ 6"
    by (simp_all add: Atlas_ctor_def)
  have k: "(5::nat) < 31" "(6::nat) < 31" by simp_all
  have o: "CalculateImageSizeOrder exact_libm 10 10 = 5
           \<and> CalculateImageSizeOrder exact_libm 32 32 = 5"
    using IsImageSuitable_iff_same_order [of "Atlas_ctor 0 32" exact_libm 10 10 5]
      log2f_faithful_exact_libm by blast
  have a: "IsImageSuitable exact_libm (Atlas_ctor 0 32) 10 10 =
             Inr (CalculateImageSizeOrder exact_libm 10 10 = word_of_nat 5)"
    using IsImageSuitable_iff_same_order [of "Atlas_ctor 0 32" exact_libm 10 10 5]
      log2_exact_libm p5 k(1) by blast
  have b: "IsImageSuitable exact_libm (Atlas_ctor 0 32) 32 32 =
             Inr (CalculateImageSizeOrder exact_libm 32 32 = word_of_nat 5)"
    using IsImageSuitable_iff_same_order [of "Atlas_ctor 0 32" exact_libm 32 32 5]
      log2_exact_libm p5 k(1) by blast
  have c: "IsImageSuitable exact_libm (Atlas_ctor 1 64) 10 10 =
             Inr (CalculateImageSizeOrder exact_libm 10 10 = word_of_nat 6)"
    using IsImageSuitable_iff_same_order [of "Atlas_ctor 1 64" exact_libm 10 10 6]
      log2_exact_libm p6 k(2) by blast
  have d: "IsImageSuitable exact_libm (Atlas_ctor 1 64) 32 32 =
             Inr (CalculateImageSizeOrder exact_libm 32 32 = word_of_nat 6)"
    using IsImageSuitable_iff_same_order [of "Atlas_ctor 1 64" exact_libm 32 32 6]
      log2_exact_libm p6 k(2) by blast
  have n: "(word_of_nat 5 :: sint32) = 5" "(word_of_nat 6 :: sint32) = 6"
    "(5 :: sint32) \<noteq> 6" by simp_all
  show ?thesis
    by (simp only: a b c d o n) simp
qed

end
